theory Spec2Isabelle
  imports Complex_Main "HOL-Library.Stream" "HOL-Library.Word" "HOL-Library.Sublist"
begin

unbundle bit_operations_syntax

section \<open>Python values\<close>

text \<open>
  The script builds nested dictionaries and hands them to \<open>json.dumps\<close>. A Python value
  is modelled by the datatype below. A dictionary is an association list in insertion
  order (the order \<open>json.dumps\<close> writes), every key of this program being a string.
  A Python \<open>float\<close> is modelled by the rational number its decimal literal denotes; the
  script only multiplies a two-decimal price by \<open>0.1\<close> and rounds the product to two
  decimals, and only compares floats produced by the same expression.
\<close>

datatype pyval =
    PNone
  | PInt int
  | PFloat rat
  | PStr string
  | PList "pyval list"
  | PDict "(string \<times> pyval) list"

fun dict_get :: "pyval \<Rightarrow> string \<Rightarrow> pyval option" where
  "dict_get (PDict kvs) k = map_of kvs k"
| "dict_get _ k = None"

fun dict_keys :: "pyval \<Rightarrow> string list" where
  "dict_keys (PDict kvs) = map fst kvs"
| "dict_keys _ = []"

fun list_items :: "pyval \<Rightarrow> pyval list" where
  "list_items (PList xs) = xs"
| "list_items _ = []"

section \<open>Module-level tables\<close>

definition FIRST_NAMES :: "string list" where
  "FIRST_NAMES = [''John'', ''Jane'', ''Michael'', ''Sarah'', ''David'', ''Emily'',
     ''Robert'', ''Lisa'', ''William'', ''Jennifer'']"

definition LAST_NAMES :: "string list" where
  "LAST_NAMES = [''Doe'', ''Smith'', ''Johnson'', ''Williams'', ''Brown'', ''Jones'',
     ''Garcia'', ''Miller'', ''Davis'', ''Martinez'']"

definition CITIES_STATES :: "(string \<times> string) list" where
  "CITIES_STATES = [
     (''San Francisco'', ''CA''), (''New York'', ''NY''), (''Los Angeles'', ''CA''),
     (''Chicago'', ''IL''), (''Seattle'', ''WA''), (''Portland'', ''OR''),
     (''Austin'', ''TX''), (''Denver'', ''CO''), (''Boston'', ''MA''), (''Miami'', ''FL'')]"

definition CHANNELS :: "string list" where
  "CHANNELS = [''WEB'', ''MOBILE'', ''API'', ''POS'', ''CALL_CENTER'']"

definition ORDER_TYPES :: "string list" where
  "ORDER_TYPES = [''STANDARD'', ''GUEST'', ''STORE'']"

definition FULFILLMENT_TYPES :: "string list" where
  "FULFILLMENT_TYPES = [''STH'', ''BOPS'', ''STS'']"

definition PRODUCTS :: "(int \<times> string \<times> rat \<times> string) list" where
  "PRODUCTS = [
     (1000000001, ''Apple AirPods Pro 2nd Gen'', 249.99,
        ''Wireless earbuds with active noise cancellation''),
     (1000000002, ''Sony WH-1000XM5 Headphones'', 349.99,
        ''Premium wireless noise-canceling headphones''),
     (1000000003, ''Anker USB-C Charging Cable 6ft'', 19.99,
        ''Braided nylon fast charging cable''),
     (1000000004, ''Nike Air Max 270 Running Shoes'', 159.99,
        ''Lightweight running shoes with Air Max cushioning''),
     (1000000005, ''Lululemon Yoga Mat 5mm'', 78.00,
        ''Non-slip yoga mat with alignment lines''),
     (1000000006, ''Kindle Paperwhite 11th Gen'', 149.99,
        ''E-reader with 6.8 inch display''),
     (1000000007, ''MacBook Pro 16-inch M3 Max'', 3499.00,
        ''Apple laptop with M3 Max chip''),
     (1000000008, ''Dell UltraSharp 32 4K Monitor'', 899.99,
        ''32-inch 4K USB-C Hub Monitor''),
     (1000000009, ''Dyson V15 Detect Vacuum'', 749.99,
        ''Cordless vacuum with laser detection''),
     (1000000010, ''Samsung Galaxy S24 Ultra'', 1299.99,
        ''Flagship smartphone with S Pen''),
     (1000000011, ''Bose QuietComfort Ultra'', 429.00,
        ''Premium noise canceling headphones''),
     (1000000012, ''Apple Watch Series 9'', 399.00,
        ''Smartwatch with health tracking''),
     (1000000013, ''Nintendo Switch OLED'', 349.99,
        ''Gaming console with OLED screen''),
     (1000000014, ''Instant Pot Duo 7-in-1'', 89.99,
        ''Multi-use pressure cooker''),
     (1000000015, ''Nespresso VertuoPlus'', 179.00,
        ''Coffee and espresso machine'')]"

section \<open>The process state\<close>

text \<open>
  Everything the script reads or writes besides its arguments: the process-wide generator
  of the \<open>random\<close> module, the operating system's entropy behind \<open>uuid.uuid4\<close>, the
  system clock, and the two output streams.

  The generator is the stream of raw numbers it will hand out, one per primitive request;
  \<open>rng\<close> is its current state and a draw moves to the tail. Every run of the real
  generator is the run of some such stream, so a statement for all streams covers every
  state of the random source. The entropy source yields the 16-byte blocks of
  \<open>os.urandom(16)\<close> as numbers, the clock yields the readings of successive calls of
  \<open>datetime.now\<close> in whole seconds since 1970-01-01T00:00:00 UTC (no format used by
  the script prints a fraction of a second). The output streams hold the characters
  written so far.
\<close>

record world =
  rng :: "nat stream"
  urandom :: "nat stream"
  clock :: "nat stream"
  stdout :: string
  stderr :: string

subsection \<open>The \<open>random\<close> module\<close>

definition randbelow :: "nat \<Rightarrow> world \<Rightarrow> nat \<times> world" where
  "randbelow n w = (shd (rng w) mod n, w\<lparr>rng := stl (rng w)\<rparr>)"

text \<open>
  \<open>random.choice(seq)\<close> is \<open>seq[randbelow(len(seq))]\<close>; it raises on an empty sequence,
  and the script only passes the non-empty tables above.
\<close>

definition random_choice :: "'a list \<Rightarrow> world \<Rightarrow> 'a \<times> world" where
  "random_choice seq w = (let (k, w') = randbelow (length seq) w in (seq ! k, w'))"

text \<open>
  \<open>random.randint(a, b)\<close> is \<open>a + randbelow(b - a + 1)\<close>; it raises when \<open>b < a\<close>, and
  the script only passes literal bounds with \<open>a \<le> b\<close>.
\<close>

definition random_randint :: "int \<Rightarrow> int \<Rightarrow> world \<Rightarrow> int \<times> world" where
  "random_randint a b w =
     (let (k, w') = randbelow (nat (b - a + 1)) w in (a + int k, w'))"

text \<open>\<open>random.random()\<close> is a 53-bit integer divided by \<open>2 ^ 53\<close>.\<close>

definition random_random :: "world \<Rightarrow> rat \<times> world" where
  "random_random w =
     (of_nat (shd (rng w) mod 2 ^ 53) / 2 ^ 53, w\<lparr>rng := stl (rng w)\<rparr>)"

subsection \<open>Formatting numbers and strings\<close>

definition digit_chars :: string where
  "digit_chars = ''0123456789abcdef''"

fun digits10 :: "nat \<Rightarrow> string" where
  "digits10 n =
     (if n < 10 then [digit_chars ! n] else digits10 (n div 10) @ [digit_chars ! (n mod 10)])"

declare digits10.simps [simp del]

text \<open>\<open>str(n)\<close> for an integer.\<close>

definition str_int :: "int \<Rightarrow> string" where
  "str_int n = (if n < 0 then ''-'' @ digits10 (nat (- n)) else digits10 (nat n))"

definition zfill :: "nat \<Rightarrow> string \<Rightarrow> string" where
  "zfill width s = replicate (width - length s) (CHR ''0'') @ s"

text \<open>The format specifications \<open>:05d\<close>, \<open>%02d\<close> and the like: the sign comes first.\<close>

definition fmt_0d :: "nat \<Rightarrow> int \<Rightarrow> string" where
  "fmt_0d width n =
     (if n < 0 then ''-'' @ zfill (width - 1) (digits10 (nat (- n)))
      else zfill width (digits10 (nat n)))"

definition lower_char :: "char \<Rightarrow> char" where
  "lower_char c =
     (case map_of (zip ''ABCDEFGHIJKLMNOPQRSTUVWXYZ'' ''abcdefghijklmnopqrstuvwxyz'') c of
        Some l \<Rightarrow> l
      | None \<Rightarrow> c)"

definition lower :: "string \<Rightarrow> string" where
  "lower s = map lower_char s"

text \<open>
  \<open>round(x, ndigits)\<close> on a float: to the nearest multiple of \<open>10 ^ -ndigits\<close>, a tie
  going to the even neighbour.
\<close>

definition round_half_even :: "rat \<Rightarrow> int" where
  "round_half_even x =
     (let f = \<lfloor>x\<rfloor>; r = x - of_int f
      in if r < 1 / 2 then f else if 1 / 2 < r then f + 1 else if even f then f else f + 1)"

definition py_round :: "rat \<Rightarrow> nat \<Rightarrow> rat" where
  "py_round x ndigits = of_int (round_half_even (x * 10 ^ ndigits)) / 10 ^ ndigits"

subsection \<open>\<open>datetime\<close>\<close>

text \<open>
  An aware UTC \<open>datetime\<close> is its number of whole seconds since the epoch. Adding a
  \<open>timedelta\<close> raises \<open>OverflowError\<close> past the year 9999; the clock is taken to
  read a time at least four days before that.
\<close>

definition datetime_now :: "world \<Rightarrow> int \<times> world" where
  "datetime_now w = (int (shd (clock w)), w\<lparr>clock := stl (clock w)\<rparr>)"

definition timedelta_days :: "int \<Rightarrow> int" where
  "timedelta_days d = d * 86400"

text \<open>The proleptic Gregorian date (year, month, day) of a day number counted from 1970-01-01.\<close>

definition civil_from_days :: "int \<Rightarrow> int \<times> int \<times> int" where
  "civil_from_days z0 =
     (let z = z0 + 719468;
          era = z div 146097;
          doe = z - era * 146097;
          yoe = (doe - doe div 1460 + doe div 36524 - doe div 146096) div 365;
          y = yoe + era * 400;
          doy = doe - (365 * yoe + yoe div 4 - yoe div 100);
          mp = (5 * doy + 2) div 153;
          d = doy - (153 * mp + 2) div 5 + 1;
          m = (if mp < 10 then mp + 3 else mp - 9)
      in (if m \<le> 2 then y + 1 else y, m, d))"

text \<open>\<open>strftime("%Y-%m-%d")\<close>\<close>

definition strftime_date :: "int \<Rightarrow> string" where
  "strftime_date t =
     (let (y, m, d) = civil_from_days (t div 86400)
      in fmt_0d 4 y @ ''-'' @ fmt_0d 2 m @ ''-'' @ fmt_0d 2 d)"

text \<open>\<open>strftime("%Y-%m-%dT%H:%M:%S")\<close>\<close>

definition strftime_timestamp :: "int \<Rightarrow> string" where
  "strftime_timestamp t =
     (let s = t mod 86400
      in strftime_date t @ ''T'' @ fmt_0d 2 (s div 3600) @ '':'' @
         fmt_0d 2 (s mod 3600 div 60) @ '':'' @ fmt_0d 2 (s mod 60))"

subsection \<open>\<open>uuid\<close>\<close>

text \<open>
  \<open>uuid.uuid4()\<close> reads 16 bytes of operating-system entropy as a 128-bit number, sets
  the variant bits to RFC 4122 and the version to 4.
\<close>

definition uuid4 :: "world \<Rightarrow> 128 word \<times> world" where
  "uuid4 w =
     (let i = (word_of_nat (shd (urandom w)) :: 128 word);
          i = i AND NOT (push_bit 48 0xc000);
          i = i OR push_bit 48 0x8000;
          i = i AND NOT (push_bit 64 0xf000);
          i = i OR push_bit 76 4
      in (i, w\<lparr>urandom := stl (urandom w)\<rparr>))"

text \<open>\<open>str(u)\<close>: 32 hexadecimal digits grouped 8-4-4-4-12.\<close>

definition hex32 :: "128 word \<Rightarrow> string" where
  "hex32 u = map (\<lambda>k. digit_chars ! unat (drop_bit (4 * (31 - k)) u AND 15)) [0..<32]"

definition str_uuid :: "128 word \<Rightarrow> string" where
  "str_uuid u =
     (let h = hex32 u
      in take 8 h @ ''-'' @ take 4 (drop 8 h) @ ''-'' @ take 4 (drop 12 h) @ ''-'' @
         take 4 (drop 16 h) @ ''-'' @ drop 20 h)"

section \<open>\<open>generate_order\<close>\<close>

text \<open>
  The body of the \<open>for\<close> loop (source lines 56 to 85): one order line. The values of a
  dictionary display are evaluated in the order they are written, so the draws follow
  the order of the source text.
\<close>

definition order_line ::
  "int \<Rightarrow> string \<Rightarrow> string \<Rightarrow> string \<Rightarrow> string \<Rightarrow> string \<Rightarrow> string \<Rightarrow> world \<Rightarrow> pyval \<times> world"
where
  "order_line i full_name email city state ship_date delivery_date w0 =
     (let (product, w) = random_choice PRODUCTS w0;
          (product_id, name, price, desc) = product;
          (quantity, w) = random_randint 1 3 w;
          (r, w) = random_random w;
          discount = (if r < 0.2 then PFloat (py_round (price * 0.1) 2) else PNone);
          (fulfillment_type, w) = random_choice FULFILLMENT_TYPES w;
          (street, w) = random_randint 1 999 w;
          (postal, w) = random_randint 10000 99999 w;
          (area, w) = random_randint 100 999 w;
          (subscriber, w) = random_randint 1000 9999 w
      in (PDict [
            (''line_number'', PInt i),
            (''item_id'', PInt product_id),
            (''item_name'', PStr name),
            (''item_description'', PStr desc),
            (''quantity'', PInt quantity),
            (''unit_price'', PFloat price),
            (''currency'', PStr ''USD''),
            (''tax_rate'', PFloat 0.08),
            (''discount_amount'', discount),
            (''fulfillment_type'', PStr fulfillment_type),
            (''estimated_ship_date'', PStr ship_date),
            (''estimated_delivery_date'', PStr delivery_date),
            (''shipping_address'', PDict [
               (''full_name'', PStr full_name),
               (''address_line1'', PStr (str_int street @ '' Main Street'')),
               (''address_line2'', PNone),
               (''city'', PStr city),
               (''state_province'', PStr state),
               (''postal_code'', PStr (str_int postal)),
               (''country'', PStr ''USA''),
               (''phone_number'',
                  PStr (''+1-'' @ str_int area @ ''-555-'' @ str_int subscriber)),
               (''email'', PStr email)])],
          w))"

text \<open>\<open>for i in range(1, num_lines + 1)\<close>, entered with \<open>i = 1\<close> and an empty list.\<close>

function order_lines_loop ::
  "int \<Rightarrow> int \<Rightarrow> string \<Rightarrow> string \<Rightarrow> string \<Rightarrow> string \<Rightarrow> string \<Rightarrow> string \<Rightarrow>
   pyval list \<Rightarrow> world \<Rightarrow> pyval list \<times> world"
where
  "order_lines_loop i num_lines full_name email city state ship_date delivery_date
       order_lines w =
     (if i \<le> num_lines then
        (case order_line i full_name email city state ship_date delivery_date w of
           (line, w') \<Rightarrow>
             order_lines_loop (i + 1) num_lines full_name email city state ship_date
               delivery_date (order_lines @ [line]) w')
      else (order_lines, w))"
  by pat_completeness auto
termination
  by (relation "measure (\<lambda>(i, num_lines, _). nat (num_lines + 1 - i))") auto

declare order_lines_loop.simps [simp del]

definition generate_order :: "int \<Rightarrow> world \<Rightarrow> pyval \<times> world" where
  "generate_order order_num w0 =
     (let (first_name, w) = random_choice FIRST_NAMES w0;
          (last_name, w) = random_choice LAST_NAMES w;
          full_name = first_name @ '' '' @ last_name;
          email = lower first_name @ ''.'' @ lower last_name @ ''@example.com'';
          ((city, state), w) = random_choice CITIES_STATES w;
          (now, w) = datetime_now w;
          ship_date = strftime_date (now + timedelta_days 1);
          delivery_date = strftime_date (now + timedelta_days 4);
          timestamp = strftime_timestamp now;
          (num_lines, w) = random_randint 1 3 w;
          (order_lines, w) =
             order_lines_loop 1 num_lines full_name email city state ship_date
               delivery_date [] w;
          (uuid, w) = uuid4 w;
          (customer, w) = random_randint 1 10000 w;
          (order_type, w) = random_choice ORDER_TYPES w;
          (channel, w) = random_choice CHANNELS w;
          (street, w) = random_randint 1 999 w;
          (postal, w) = random_randint 10000 99999 w;
          (area, w) = random_randint 100 999 w;
          (subscriber, w) = random_randint 1000 9999 w
      in (PDict [
            (''external_order_id'', PStr (str_uuid uuid)),
            (''customer_id'', PStr (''CUST-'' @ fmt_0d 5 customer)),
            (''order_type'', PStr order_type),
            (''channel'', PStr channel),
            (''order_lines'', PList order_lines),
            (''billing_address'', PDict [
               (''full_name'', PStr full_name),
               (''address_line1'', PStr (str_int street @ '' Main Street'')),
               (''address_line2'', PNone),
               (''city'', PStr city),
               (''state_province'', PStr state),
               (''postal_code'', PStr (str_int postal)),
               (''country'', PStr ''USA''),
               (''phone_number'',
                  PStr (''+1-'' @ str_int area @ ''-555-'' @ str_int subscriber)),
               (''email'', PStr email)]),
            (''notes'', PStr (''Order #'' @ str_int order_num @ '' - Generated for testing'')),
            (''timestamp'', PStr timestamp)],
          w))"

section \<open>\<open>json.dumps\<close> with \<open>separators=(',', ':')\<close>\<close>

text \<open>
  \<open>repr\<close> of a float. The double nearest to a decimal number of at most 15 significant
  digits prints as that decimal, with at least one digit after the point; the floats the
  script serialises (the prices, the tax rate, the rounded discounts) are of this kind.
\<close>

fun frac_digits :: "nat \<Rightarrow> rat \<Rightarrow> string" where
  "frac_digits 0 r = []"
| "frac_digits (Suc fuel) r =
     (if r = 0 then []
      else (let d = \<lfloor>r * 10\<rfloor> in digit_chars ! nat d # frac_digits fuel (r * 10 - of_int d)))"

definition float_repr :: "rat \<Rightarrow> string" where
  "float_repr x =
     (let a = \<bar>x\<bar>; n = \<lfloor>a\<rfloor>; f = a - of_int n
      in (if x < 0 then ''-'' else []) @ digits10 (nat n) @ ''.'' @
         (if f = 0 then ''0'' else frac_digits 17 f))"

definition hex4 :: "nat \<Rightarrow> string" where
  "hex4 n = [digit_chars ! (n div 4096 mod 16), digit_chars ! (n div 256 mod 16),
             digit_chars ! (n div 16 mod 16), digit_chars ! (n mod 16)]"

text \<open>
  The encoder's string escaping with \<open>ensure_ascii\<close>: the quote, the backslash and every
  character outside the range from space to tilde are escaped.
\<close>

definition json_escape_char :: "char \<Rightarrow> string" where
  "json_escape_char c =
     (let n = (of_char c :: nat)
      in if n = 0x22 then [CHR 0x5C, CHR 0x22]
         else if n = 0x5C then [CHR 0x5C, CHR 0x5C]
         else if n = 0x0A then [CHR 0x5C, CHR ''n'']
         else if n = 0x0D then [CHR 0x5C, CHR ''r'']
         else if n = 0x09 then [CHR 0x5C, CHR ''t'']
         else if n = 0x08 then [CHR 0x5C, CHR ''b'']
         else if n = 0x0C then [CHR 0x5C, CHR ''f'']
         else if 0x20 \<le> n \<and> n \<le> 0x7E then [c]
         else [CHR 0x5C, CHR ''u''] @ hex4 n)"

definition json_string :: "string \<Rightarrow> string" where
  "json_string s = [CHR 0x22] @ concat (map json_escape_char s) @ [CHR 0x22]"

fun join :: "string \<Rightarrow> string list \<Rightarrow> string" where
  "join sep [] = []"
| "join sep [x] = x"
| "join sep (x # y # ys) = x @ sep @ join sep (y # ys)"

fun json_dumps :: "pyval \<Rightarrow> string" where
  "json_dumps PNone = ''null''"
| "json_dumps (PInt n) = str_int n"
| "json_dumps (PFloat x) = float_repr x"
| "json_dumps (PStr s) = json_string s"
| "json_dumps (PList xs) = ''['' @ join '','' (map json_dumps xs) @ '']''"
| "json_dumps (PDict kvs) =
     ''{'' @ join '','' (map (\<lambda>(k, v). json_string k @ '':'' @ json_dumps v) kvs) @ ''}''"

section \<open>\<open>main\<close>\<close>

datatype py_error = ValueError

text \<open>
  \<open>int(s)\<close> on a string, base 10: surrounding whitespace is stripped, an optional sign
  follows, then decimal digits, single underscores allowed between digits. Anything else
  raises \<open>ValueError\<close>. Arguments are modelled as ASCII strings; the interpreter's
  configurable limit on the number of digits (a further \<open>ValueError\<close>) is left out.
\<close>

definition is_space :: "char \<Rightarrow> bool" where
  "is_space c = ((of_char c :: nat) \<in> {9, 10, 11, 12, 13, 28, 29, 30, 31, 32})"

definition strip :: "string \<Rightarrow> string" where
  "strip s = rev (dropWhile is_space (rev (dropWhile is_space s)))"

definition is_digit :: "char \<Rightarrow> bool" where
  "is_digit c = (48 \<le> (of_char c :: nat) \<and> (of_char c :: nat) \<le> 57)"

fun digits_value :: "nat \<Rightarrow> string \<Rightarrow> nat option" where
  "digits_value acc [] = Some acc"
| "digits_value acc (c # cs) =
     (if is_digit c then digits_value (acc * 10 + (of_char c - 48)) cs
      else if c = CHR ''_'' \<and> cs \<noteq> [] \<and> is_digit (hd cs) then digits_value acc cs
      else None)"

definition parse_unsigned :: "string \<Rightarrow> nat option" where
  "parse_unsigned s =
     (case s of [] \<Rightarrow> None | c # cs \<Rightarrow> if is_digit c then digits_value 0 s else None)"

definition py_int :: "string \<Rightarrow> py_error + int" where
  "py_int s =
     (case strip s of
        [] \<Rightarrow> Inl ValueError
      | c # cs \<Rightarrow>
          (let (negative, body) =
                 (if c = CHR ''-'' then (True, cs)
                  else if c = CHR ''+'' then (False, cs)
                  else (False, c # cs))
           in case parse_unsigned body of
                None \<Rightarrow> Inl ValueError
              | Some n \<Rightarrow> Inr (if negative then - int n else int n)))"

text \<open>\<open>print(s)\<close> and \<open>print(s, file=sys.stderr)\<close> write the text and a newline.\<close>

definition print_stdout :: "string \<Rightarrow> world \<Rightarrow> world" where
  "print_stdout s w = w\<lparr>stdout := stdout w @ s @ [CHR 0x0A]\<rparr>"

definition print_stderr :: "string \<Rightarrow> world \<Rightarrow> world" where
  "print_stderr s w = w\<lparr>stderr := stderr w @ s @ [CHR 0x0A]\<rparr>"

definition progress_notice :: "int \<Rightarrow> int \<Rightarrow> string" where
  "progress_notice i count =
     ''  Generated '' @ str_int i @ ''/'' @ str_int count @ '' orders...''"

text \<open>\<open>for i in range(1, count + 1)\<close>, entered with \<open>i = 1\<close>.\<close>

function main_loop :: "int \<Rightarrow> int \<Rightarrow> world \<Rightarrow> world" where
  "main_loop i count w =
     (if i \<le> count then
        (case generate_order i w of
           (order, w1) \<Rightarrow>
             (let w2 = print_stdout (json_dumps order) w1;
                  w3 = (if i mod 100 = 0 then print_stderr (progress_notice i count) w2
                        else w2)
              in main_loop (i + 1) count w3))
      else w)"
  by pat_completeness auto
termination
  by (relation "measure (\<lambda>(i, count, _). nat (count + 1 - i))") auto

declare main_loop.simps [simp del]



section \<open>Reading a generated record\<close>

text \<open>
  What a consumer of the record does: \<open>order["order_lines"]\<close>, and nested subscripts
  such as \<open>line["shipping_address"]["email"]\<close>. A missing key is \<open>None\<close>.
\<close>

fun dict_path :: "pyval \<Rightarrow> string list \<Rightarrow> pyval option" where
  "dict_path v [] = Some v"
| "dict_path v (k # ks) = (case dict_get v k of None \<Rightarrow> None | Some v' \<Rightarrow> dict_path v' ks)"

definition order_lines_of :: "pyval \<Rightarrow> pyval list" where
  "order_lines_of order = (case dict_get order ''order_lines'' of Some v \<Rightarrow> list_items v | None \<Rightarrow> [])"

section \<open>A sample run\<close>

text \<open>
  A process state for running the definitions on: the generator hands out the listed raw
  numbers and zeros after them, the clock starts at 2026-11-04T10:00:00 UTC.
\<close>

definition example_world :: world where
  "example_world =
     \<lparr>rng = [6, 5, 2, 1,
             9, 2, 0, 2, 215, 65877, 248, 4263,
             12, 2, 2 ^ 52, 0, 760, 43293, 660, 7079,
             8586, 1, 2, 475, 25854, 569, 328] @- sconst 0,
      urandom = siterate (\<lambda>x. 3 * x + 1) 0x0123456789abcdef0123456789abcdef,
      clock = siterate Suc 1793786400,
      stdout = [], stderr = []\<rparr>"

text \<open>
  The record \<open>generate_order\<close> returns in that state, and the state it leaves behind.
\<close>

definition example_line1 :: pyval where
  "example_line1 = PDict [
     (''line_number'', PInt 1),
     (''item_id'', PInt 1000000010),
     (''item_name'', PStr ''Samsung Galaxy S24 Ultra''),
     (''item_description'', PStr ''Flagship smartphone with S Pen''),
     (''quantity'', PInt 3),
     (''unit_price'', PFloat 1299.99),
     (''currency'', PStr ''USD''),
     (''tax_rate'', PFloat 0.08),
     (''discount_amount'', PFloat 130),
     (''fulfillment_type'', PStr ''STS''),
     (''estimated_ship_date'', PStr ''2026-11-05''),
     (''estimated_delivery_date'', PStr ''2026-11-08''),
     (''shipping_address'', PDict [
        (''full_name'', PStr ''Robert Jones''),
        (''address_line1'', PStr ''216 Main Street''),
        (''address_line2'', PNone),
        (''city'', PStr ''Los Angeles''),
        (''state_province'', PStr ''CA''),
        (''postal_code'', PStr ''75877''),
        (''country'', PStr ''USA''),
        (''phone_number'', PStr ''+1-348-555-5263''),
        (''email'', PStr ''robert.jones@example.com'')])]"

definition example_line2 :: pyval where
  "example_line2 = PDict [
     (''line_number'', PInt 2),
     (''item_id'', PInt 1000000013),
     (''item_name'', PStr ''Nintendo Switch OLED''),
     (''item_description'', PStr ''Gaming console with OLED screen''),
     (''quantity'', PInt 3),
     (''unit_price'', PFloat 349.99),
     (''currency'', PStr ''USD''),
     (''tax_rate'', PFloat 0.08),
     (''discount_amount'', PNone),
     (''fulfillment_type'', PStr ''STH''),
     (''estimated_ship_date'', PStr ''2026-11-05''),
     (''estimated_delivery_date'', PStr ''2026-11-08''),
     (''shipping_address'', PDict [
        (''full_name'', PStr ''Robert Jones''),
        (''address_line1'', PStr ''761 Main Street''),
        (''address_line2'', PNone),
        (''city'', PStr ''Los Angeles''),
        (''state_province'', PStr ''CA''),
        (''postal_code'', PStr ''53293''),
        (''country'', PStr ''USA''),
        (''phone_number'', PStr ''+1-760-555-8079''),
        (''email'', PStr ''robert.jones@example.com'')])]"

definition example_billing :: pyval where
  "example_billing = PDict [
     (''full_name'', PStr ''Robert Jones''),
     (''address_line1'', PStr ''476 Main Street''),
     (''address_line2'', PNone),
     (''city'', PStr ''Los Angeles''),
     (''state_province'', PStr ''CA''),
     (''postal_code'', PStr ''35854''),
     (''country'', PStr ''USA''),
     (''phone_number'', PStr ''+1-669-555-1328''),
     (''email'', PStr ''robert.jones@example.com'')]"

definition example_order :: "int \<Rightarrow> pyval" where
  "example_order order_num = PDict [
     (''external_order_id'', PStr ''01234567-89ab-4def-8123-456789abcdef''),
     (''customer_id'', PStr ''CUST-08587''),
     (''order_type'', PStr ''GUEST''),
     (''channel'', PStr ''API''),
     (''order_lines'', PList [example_line1, example_line2]),
     (''billing_address'', example_billing),
     (''notes'', PStr (''Order #'' @ str_int order_num @ '' - Generated for testing'')),
     (''timestamp'', PStr ''2026-11-04T10:00:00'')]"

definition example_world_after :: world where
  "example_world_after =
     \<lparr>rng = sconst 0,
      urandom = siterate (\<lambda>x. 3 * x + 1) 0x369d0369d0369cd0369d0369d0369ce,
      clock = siterate Suc 1793786401,
      stdout = [], stderr = []\<rparr>"

text \<open>
  The line \<open>json.dumps(order, separators=(',', ':'))\<close> prints for that record with
  \<open>order_num = 1\<close>.
\<close>

definition example_json :: string where
  \<open>example_json =
     ''{"external_order_id":"01234567-89ab-4def-8123-456789abcdef","customer_id":"CUST-'' @
     ''08587","order_type":"GUEST","channel":"API","order_lines":[{"line_number":1,"ite'' @
     ''m_id":1000000010,"item_name":"Samsung Galaxy S24 Ultra","item_description":"Flag'' @
     ''ship smartphone with S Pen","quantity":3,"unit_price":1299.99,"currency":"USD","'' @
     ''tax_rate":0.08,"discount_amount":130.0,"fulfillment_type":"STS","estimated_ship_'' @
     ''date":"2026-11-05","estimated_delivery_date":"2026-11-08","shipping_address":{"f'' @
     ''ull_name":"Robert Jones","address_line1":"216 Main Street","address_line2":null,'' @
     ''"city":"Los Angeles","state_province":"CA","postal_code":"75877","country":"USA"'' @
     '',"phone_number":"+1-348-555-5263","email":"robert.jones@example.com"}},{"line_nu'' @
     ''mber":2,"item_id":1000000013,"item_name":"Nintendo Switch OLED","item_descriptio'' @
     ''n":"Gaming console with OLED screen","quantity":3,"unit_price":349.99,"currency"'' @
     '':"USD","tax_rate":0.08,"discount_amount":null,"fulfillment_type":"STH","estimate'' @
     ''d_ship_date":"2026-11-05","estimated_delivery_date":"2026-11-08","shipping_addre'' @
     ''ss":{"full_name":"Robert Jones","address_line1":"761 Main Street","address_line2'' @
     ''":null,"city":"Los Angeles","state_province":"CA","postal_code":"53293","country'' @
     ''":"USA","phone_number":"+1-760-555-8079","email":"robert.jones@example.com"}}],"'' @
     ''billing_address":{"full_name":"Robert Jones","address_line1":"476 Main Street","'' @
     ''address_line2":null,"city":"Los Angeles","state_province":"CA","postal_code":"35'' @
     ''854","country":"USA","phone_number":"+1-669-555-1328","email":"robert.jones@exam'' @
     ''ple.com"},"notes":"Order #1 - Generated for testing","timestamp":"2026-11-04T10:'' @
     ''00:00"}''\<close>

section \<open>The primitives, step by step\<close>

lemma randbelow_simps [simp]:
  "fst (randbelow n w) = shd (rng w) mod n"
  "snd (randbelow n w) = w\<lparr>rng := stl (rng w)\<rparr>"
  by (simp_all add: randbelow_def)

lemma random_choice_simps [simp]:
  "fst (random_choice xs w) = xs ! (shd (rng w) mod length xs)"
  "snd (random_choice xs w) = w\<lparr>rng := stl (rng w)\<rparr>"
  by (simp_all add: random_choice_def split_def)

lemma random_randint_simps [simp]:
  "fst (random_randint a b w) = a + int (shd (rng w) mod nat (b - a + 1))"
  "snd (random_randint a b w) = w\<lparr>rng := stl (rng w)\<rparr>"
  by (simp_all add: random_randint_def split_def)

lemma random_random_simps [simp]:
  "fst (random_random w) = of_nat (shd (rng w) mod 2 ^ 53) / 2 ^ 53"
  "snd (random_random w) = w\<lparr>rng := stl (rng w)\<rparr>"
  by (simp_all add: random_random_def)

lemma order_lines_loop_length:
  "length (fst (order_lines_loop i n fn em c s sd dd acc w)) = length acc + nat (n + 1 - i)"
proof (induction i n fn em c s sd dd acc w rule: order_lines_loop.induct)
  case (1 i n fn em c s sd dd acc w)
  show ?case
  proof (cases "i \<le> n")
    case True
    obtain line w' where ol: "order_line i fn em c s sd dd w = (line, w')"
      by (cases "order_line i fn em c s sd dd w")
    from 1 [OF True ol [symmetric]] True ol show ?thesis
      by (subst order_lines_loop.simps) (simp add: nat_add_distrib)
  next
    case False
    then show ?thesis
      by (subst order_lines_loop.simps) simp
  qed
qed

lemma order_lines_loop_all:
  assumes acc: "\<forall>l \<in> set acc. P l"
    and body: "\<And>j w'. P (fst (order_line j fn em c s sd dd w'))"
  shows "\<forall>l \<in> set (fst (order_lines_loop i n fn em c s sd dd acc w)). P l"
  using acc body
proof (induction i n fn em c s sd dd acc w rule: order_lines_loop.induct)
  case (1 i n fn em c s sd dd acc w)
  show ?case
  proof (cases "i \<le> n")
    case True
    obtain line w' where ol: "order_line i fn em c s sd dd w = (line, w')"
      by (cases "order_line i fn em c s sd dd w")
    have "P line" using ol "1.prems"(2) [of i w] by simp
    with "1.prems"(1) have "\<forall>l \<in> set (acc @ [line]). P l" by simp
    from "1.IH" [OF True ol [symmetric] this "1.prems"(2)] True ol show ?thesis
      by (subst order_lines_loop.simps) simp
  next
    case False
    with "1.prems"(1) show ?thesis
      by (subst order_lines_loop.simps) simp
  qed
qed

lemma order_line_line_number:
  "dict_get (fst (order_line i fn em c s sd dd w)) ''line_number'' = Some (PInt i)"
  by (simp add: order_line_def split_def)

lemma order_lines_loop_line_numbers:
  "map (\<lambda>l. dict_get l ''line_number'') (fst (order_lines_loop i n fn em c s sd dd acc w)) =
     map (\<lambda>l. dict_get l ''line_number'') acc @ map (\<lambda>j. Some (PInt j)) [i..n]"
proof (induction i n fn em c s sd dd acc w rule: order_lines_loop.induct)
  case (1 i n fn em c s sd dd acc w)
  show ?case
  proof (cases "i \<le> n")
    case True
    obtain line w' where ol: "order_line i fn em c s sd dd w = (line, w')"
      by (cases "order_line i fn em c s sd dd w")
    have ln: "dict_get line ''line_number'' = Some (PInt i)"
      using order_line_line_number [of i fn em c s sd dd w] ol by simp
    from 1 [OF True ol [symmetric]] True ol ln show ?thesis
      by (subst order_lines_loop.simps) (simp add: upto_rec1 [of i n])
  next
    case False
    then show ?thesis
      by (subst order_lines_loop.simps) simp
  qed
qed

section \<open>The shape of an order line and of an order\<close>

lemma length_PRODUCTS: "length PRODUCTS = 15"
  by (simp add: PRODUCTS_def)

lemma choice_PRODUCTS_mem: "fst (random_choice PRODUCTS w) \<in> set PRODUCTS"
  by (simp add: length_PRODUCTS)

lemma order_line_shape:
  "\<exists>pid name price desc quantity discount ft a1 pc ph.
     fst (order_line i fn em c s sd dd w) =
       PDict [
         (''line_number'', PInt i),
         (''item_id'', PInt pid),
         (''item_name'', PStr name),
         (''item_description'', PStr desc),
         (''quantity'', PInt quantity),
         (''unit_price'', PFloat price),
         (''currency'', PStr ''USD''),
         (''tax_rate'', PFloat 0.08),
         (''discount_amount'', discount),
         (''fulfillment_type'', PStr ft),
         (''estimated_ship_date'', PStr sd),
         (''estimated_delivery_date'', PStr dd),
         (''shipping_address'', PDict [
            (''full_name'', PStr fn),
            (''address_line1'', PStr a1),
            (''address_line2'', PNone),
            (''city'', PStr c),
            (''state_province'', PStr s),
            (''postal_code'', PStr pc),
            (''country'', PStr ''USA''),
            (''phone_number'', PStr ph),
            (''email'', PStr em)])] \<and>
     (pid, name, price, desc) \<in> set PRODUCTS \<and>
     (discount = PNone \<or> discount = PFloat (py_round (price * 0.1) 2))"
proof -
  obtain pid name price desc where p: "fst (random_choice PRODUCTS w) = (pid, name, price, desc)"
    by (cases "fst (random_choice PRODUCTS w)")
  with choice_PRODUCTS_mem [of w] have mem: "(pid, name, price, desc) \<in> set PRODUCTS"
    by simp
  show ?thesis
    apply (rule exI [of _ pid], rule exI [of _ name], rule exI [of _ price], rule exI [of _ desc])
    using p mem
    apply (simp only: order_line_def Let_def split_def)
    apply (simp del: random_choice_simps)
    done
qed

lemma generate_order_shape:
  "\<exists>k fn em c s sd dd w1 eid cid ot ch a1 pc ph ts.
     fst (generate_order n w) =
       PDict [
         (''external_order_id'', PStr eid),
         (''customer_id'', PStr cid),
         (''order_type'', PStr ot),
         (''channel'', PStr ch),
         (''order_lines'', PList (fst (order_lines_loop 1 (1 + int k) fn em c s sd dd [] w1))),
         (''billing_address'', PDict [
            (''full_name'', PStr fn),
            (''address_line1'', PStr a1),
            (''address_line2'', PNone),
            (''city'', PStr c),
            (''state_province'', PStr s),
            (''postal_code'', PStr pc),
            (''country'', PStr ''USA''),
            (''phone_number'', PStr ph),
            (''email'', PStr em)]),
         (''notes'', PStr (''Order #'' @ str_int n @ '' - Generated for testing'')),
         (''timestamp'', PStr ts)] \<and>
     k < 3"
  apply (rule exI [of _ "shd (rng (snd (datetime_now (snd (random_choice CITIES_STATES (snd (random_choice LAST_NAMES (snd (random_choice FIRST_NAMES w)))))))) ) mod 3"])
  apply (simp only: generate_order_def Let_def split_def fst_conv snd_conv pyval.inject list.inject prod.inject simp_thms)
  apply (simp del: random_choice_simps)
  apply (intro exI)
  apply (rule refl)
  done

lemma generate_order_lines:
  obtains k fn em c s sd dd w1 a1 pc ph where
    "k < 3"
    "dict_get (fst (generate_order n w)) ''order_lines'' =
       Some (PList (fst (order_lines_loop 1 (1 + int k) fn em c s sd dd [] w1)))"
    "order_lines_of (fst (generate_order n w)) =
       fst (order_lines_loop 1 (1 + int k) fn em c s sd dd [] w1)"
    "dict_get (fst (generate_order n w)) ''billing_address'' =
       Some (PDict [
            (''full_name'', PStr fn),
            (''address_line1'', PStr a1),
            (''address_line2'', PNone),
            (''city'', PStr c),
            (''state_province'', PStr s),
            (''postal_code'', PStr pc),
            (''country'', PStr ''USA''),
            (''phone_number'', PStr ph),
            (''email'', PStr em)])"
proof -
  from generate_order_shape [of n w] obtain k fn em c s sd dd w1 eid cid ot ch a1 pc ph ts
    where sh: "fst (generate_order n w) =
       PDict [
         (''external_order_id'', PStr eid),
         (''customer_id'', PStr cid),
         (''order_type'', PStr ot),
         (''channel'', PStr ch),
         (''order_lines'', PList (fst (order_lines_loop 1 (1 + int k) fn em c s sd dd [] w1))),
         (''billing_address'', PDict [
            (''full_name'', PStr fn),
            (''address_line1'', PStr a1),
            (''address_line2'', PNone),
            (''city'', PStr c),
            (''state_province'', PStr s),
            (''postal_code'', PStr pc),
            (''country'', PStr ''USA''),
            (''phone_number'', PStr ph),
            (''email'', PStr em)]),
         (''notes'', PStr (''Order #'' @ str_int n @ '' - Generated for testing'')),
         (''timestamp'', PStr ts)]" and k: "k < 3"
    by blast
  show thesis
    by (rule that [of k fn em c s sd dd w1 a1 pc ph])
       (simp_all add: k sh order_lines_of_def)
qed

section \<open>Closed forms and the sample run\<close>

text \<open>
  \<open>order_line\<close> and \<open>generate_order\<close> written out in terms of the successive
  elements of the generator's stream, and the sample run evaluated with them.
\<close>

lemma datetime_now_simps [simp]:
  "fst (datetime_now w) = int (shd (clock w))"
  "snd (datetime_now w) = w\<lparr>clock := stl (clock w)\<rparr>"
  by (simp_all add: datetime_now_def)

lemma uuid4_snd [simp]:
  "snd (uuid4 w) = w\<lparr>urandom := stl (urandom w)\<rparr>"
  by (simp add: uuid4_def Let_def)

lemma length_tables [simp]:
  "length FIRST_NAMES = 10" "length LAST_NAMES = 10" "length CITIES_STATES = 10"
  "length CHANNELS = 5" "length ORDER_TYPES = 3" "length FULFILLMENT_TYPES = 3"
  by (simp_all add: FIRST_NAMES_def LAST_NAMES_def CITIES_STATES_def CHANNELS_def
        ORDER_TYPES_def FULFILLMENT_TYPES_def)

lemma order_lines_loop_step:
  "i \<le> n \<Longrightarrow>
   order_lines_loop i n fn em c s sd dd acc w =
     (case order_line i fn em c s sd dd w of
        (line, w') \<Rightarrow> order_lines_loop (i + 1) n fn em c s sd dd (acc @ [line]) w')"
  by (subst order_lines_loop.simps) simp

lemma order_lines_loop_done:
  "\<not> i \<le> n \<Longrightarrow> order_lines_loop i n fn em c s sd dd acc w = (acc, w)"
  by (subst order_lines_loop.simps) simp

lemma order_line_eval:
  "order_line i fn em c s sd dd w =
     (PDict [
            (''line_number'', PInt i),
            (''item_id'', PInt (fst (PRODUCTS ! (shd (rng w) mod 15)))),
            (''item_name'', PStr (fst (snd (PRODUCTS ! (shd (rng w) mod 15))))),
            (''item_description'', PStr (snd (snd (snd (PRODUCTS ! (shd (rng w) mod 15)))))),
            (''quantity'', PInt (1 + int (shd (stl (rng w)) mod 3))),
            (''unit_price'', PFloat (fst (snd (snd (PRODUCTS ! (shd (rng w) mod 15)))))),
            (''currency'', PStr ''USD''),
            (''tax_rate'', PFloat 0.08),
            (''discount_amount'',
               if rat_of_nat (shd (stl (stl (rng w))) mod 2 ^ 53) / 2 ^ 53 < 0.2
               then PFloat (py_round (fst (snd (snd (PRODUCTS ! (shd (rng w) mod 15)))) * 0.1) 2)
               else PNone),
            (''fulfillment_type'', PStr (FULFILLMENT_TYPES ! (shd (stl (stl (stl (rng w)))) mod 3))),
            (''estimated_ship_date'', PStr sd),
            (''estimated_delivery_date'', PStr dd),
            (''shipping_address'', PDict [
               (''full_name'', PStr fn),
               (''address_line1'',
                  PStr (str_int (1 + int (shd (stl (stl (stl (stl (rng w))))) mod 999)) @
                        '' Main Street'')),
               (''address_line2'', PNone),
               (''city'', PStr c),
               (''state_province'', PStr s),
               (''postal_code'',
                  PStr (str_int (10000 + int (shd (stl (stl (stl (stl (stl (rng w)))))) mod 90000)))),
               (''country'', PStr ''USA''),
               (''phone_number'',
                  PStr (''+1-'' @
                    str_int (100 + int (shd (stl (stl (stl (stl (stl (stl (rng w))))))) mod 900)) @
                    ''-555-'' @
                    str_int (1000 +
                      int (shd (stl (stl (stl (stl (stl (stl (stl (rng w)))))))) mod 9000)))),
               (''email'', PStr em)])],
      w\<lparr>rng := stl (stl (stl (stl (stl (stl (stl (stl (rng w))))))))\<rparr>)"
  by (simp add: order_line_def split_def length_PRODUCTS)

lemma generate_order_eval:
  "generate_order order_num w =
     (let first_name = FIRST_NAMES ! (shd (rng w) mod 10);
          last_name = LAST_NAMES ! (shd (stl (rng w)) mod 10);
          city_state = CITIES_STATES ! (shd (stl (stl (rng w))) mod 10);
          now = int (shd (clock w));
          full_name = first_name @ '' '' @ last_name;
          email = lower first_name @ ''.'' @ lower last_name @ ''@example.com''
      in case order_lines_loop 1 (1 + int (shd (stl (stl (stl (rng w)))) mod 3))
                full_name email (fst city_state) (snd city_state)
                (strftime_date (now + timedelta_days 1)) (strftime_date (now + timedelta_days 4)) []
                (w\<lparr>clock := stl (clock w), rng := stl (stl (stl (stl (rng w))))\<rparr>) of
           (order_lines, w') \<Rightarrow>
             (PDict [
                (''external_order_id'', PStr (str_uuid (fst (uuid4 w')))),
                (''customer_id'', PStr (''CUST-'' @ fmt_0d 5 (1 + int (shd (rng w') mod 10000)))),
                (''order_type'', PStr (ORDER_TYPES ! (shd (stl (rng w')) mod 3))),
                (''channel'', PStr (CHANNELS ! (shd (stl (stl (rng w'))) mod 5))),
                (''order_lines'', PList order_lines),
                (''billing_address'', PDict [
                   (''full_name'', PStr full_name),
                   (''address_line1'',
                      PStr (str_int (1 + int (shd (stl (stl (stl (rng w')))) mod 999)) @
                            '' Main Street'')),
                   (''address_line2'', PNone),
                   (''city'', PStr (fst city_state)),
                   (''state_province'', PStr (snd city_state)),
                   (''postal_code'',
                      PStr (str_int (10000 + int (shd (stl (stl (stl (stl (rng w'))))) mod 90000)))),
                   (''country'', PStr ''USA''),
                   (''phone_number'',
                      PStr (''+1-'' @
                        str_int (100 + int (shd (stl (stl (stl (stl (stl (rng w')))))) mod 900)) @
                        ''-555-'' @
                        str_int (1000 +
                          int (shd (stl (stl (stl (stl (stl (stl (rng w'))))))) mod 9000)))),
                   (''email'', PStr email)]),
                (''notes'', PStr (''Order #'' @ str_int order_num @ '' - Generated for testing'')),
                (''timestamp'', PStr (strftime_timestamp now))],
              w'\<lparr>rng := stl (stl (stl (stl (stl (stl (stl (rng w'))))))),
                 urandom := stl (urandom w')\<rparr>))"
  apply (simp add: generate_order_def Let_def split_def del: random_choice_simps random_randint_simps)
  apply (simp add: uuid4_def Let_def)
  done

lemma table_nth:
  "FIRST_NAMES ! 6 = ''Robert''" "FIRST_NAMES ! 0 = ''John''"
  "LAST_NAMES ! 5 = ''Jones''" "LAST_NAMES ! 0 = ''Doe''"
  "CITIES_STATES ! 2 = (''Los Angeles'', ''CA'')"
  "CITIES_STATES ! 0 = (''San Francisco'', ''CA'')"
  "PRODUCTS ! 0 = (1000000001, ''Apple AirPods Pro 2nd Gen'', 249.99,
        ''Wireless earbuds with active noise cancellation'')"
  "PRODUCTS ! 9 = (1000000010, ''Samsung Galaxy S24 Ultra'', 1299.99,
        ''Flagship smartphone with S Pen'')"
  "PRODUCTS ! 12 = (1000000013, ''Nintendo Switch OLED'', 349.99,
        ''Gaming console with OLED screen'')"
  "FULFILLMENT_TYPES ! 0 = ''STH''" "FULFILLMENT_TYPES ! 2 = ''STS''"
  "ORDER_TYPES ! 0 = ''STANDARD''" "ORDER_TYPES ! Suc 0 = ''GUEST''"
  "CHANNELS ! 0 = ''WEB''" "CHANNELS ! 2 = ''API''"
  by (simp_all add: FIRST_NAMES_def LAST_NAMES_def CITIES_STATES_def PRODUCTS_def
        FULFILLMENT_TYPES_def ORDER_TYPES_def CHANNELS_def)

lemma digits10_small: "n < 10 \<Longrightarrow> digits10 n = [digit_chars ! n]"
  by (subst digits10.simps) simp

lemma digits10_big:
  "\<not> n < 10 \<Longrightarrow> digits10 n = digits10 (n div 10) @ [digit_chars ! (n mod 10)]"
  by (subst digits10.simps) simp

lemma floor_numeral_divide: "\<lfloor>(numeral a :: rat) / numeral b\<rfloor> = numeral a div numeral b"
  using floor_divide_of_int_eq [of "numeral a" "numeral b", where ?'a = rat] by simp

lemmas format_eval =
  digits10_small digits10_big floor_numeral_divide digit_chars_def str_int_def fmt_0d_def
  zfill_def lower_def lower_char_def py_round_def round_half_even_def

lemma example_dates:
  "strftime_date (1793786400 + timedelta_days 1) = ''2026-11-05''"
  "strftime_date (1793786400 + timedelta_days 4) = ''2026-11-08''"
  "strftime_timestamp 1793786400 = ''2026-11-04T10:00:00''"
  unfolding strftime_timestamp_def strftime_date_def civil_from_days_def timedelta_days_def Let_def
  by (simp_all add: format_eval)

lemma upt_32:
  "[0..<32] = [0, 1, 2, 3, 4, 5, 6, 7, 8, 9, 10, 11, 12, 13, 14, 15, 16, 17, 18, 19, 20,
     21, 22, 23, 24, 25, 26, 27, 28, 29, 30, 31]"
  by (simp add: upt_conv_Cons)

lemma example_uuid:
  assumes "shd (urandom w) = 0x0123456789abcdef0123456789abcdef"
  shows "str_uuid (fst (uuid4 w)) = ''01234567-89ab-4def-8123-456789abcdef''"
  unfolding str_uuid_def hex32_def uuid4_def Let_def upt_32 fst_conv assms
  by (simp add: digit_chars_def)

lemma generate_order_example:
  "generate_order order_num example_world = (example_order order_num, example_world_after)"
  apply (simp add: generate_order_eval order_lines_loop_step order_lines_loop_done
      order_line_eval example_world_def table_nth Let_def)
  apply (simp add: example_dates example_uuid format_eval example_order_def example_line1_def
      example_line2_def example_billing_def example_world_after_def)
  done

lemma example_lines:
  "order_lines_of (fst (generate_order order_num example_world)) = [example_line1, example_line2]"
  by (simp add: generate_order_example order_lines_of_def example_order_def)

lemma example_billing_address:
  "dict_get (fst (generate_order order_num example_world)) ''billing_address'' = Some example_billing"
  by (simp add: generate_order_example example_order_def)

lemma order_line_shipping:
  "\<exists>a1 pc ph.
     dict_get (fst (order_line i fn em c s sd dd w)) ''shipping_address'' =
       Some (PDict [
            (''full_name'', PStr fn),
            (''address_line1'', PStr a1),
            (''address_line2'', PNone),
            (''city'', PStr c),
            (''state_province'', PStr s),
            (''postal_code'', PStr pc),
            (''country'', PStr ''USA''),
            (''phone_number'', PStr ph),
            (''email'', PStr em)])"
  by (simp add: order_line_eval)

lemma generate_order_notes_shape:
  "\<exists>eid cid ot ch ls bill ts w'. \<forall>n.
     generate_order n w =
       (PDict [
          (''external_order_id'', eid),
          (''customer_id'', cid),
          (''order_type'', ot),
          (''channel'', ch),
          (''order_lines'', ls),
          (''billing_address'', bill),
          (''notes'', PStr (''Order #'' @ str_int n @ '' - Generated for testing'')),
          (''timestamp'', ts)],
        w')"
  apply (simp only: generate_order_eval Let_def split_def)
  apply (intro exI allI)
  apply (rule refl)
  done

section \<open>Entries of a serialised record\<close>

text \<open>
  The text \<open>json.dumps\<close> writes for a dictionary contains, for every entry, the quoted
  key, a colon and the text of the value; the text of a list contains the text of every
  item.
\<close>

lemma sublist_wrap: "sublist xs ys \<Longrightarrow> sublist xs (ps @ ys @ ss)"
  unfolding sublist_def by (metis append.assoc)

lemma sublist_join: "x \<in> set xs \<Longrightarrow> sublist x (join sep xs)"
proof (induction sep xs rule: join.induct)
  case (1 sep)
  then show ?case by simp
next
  case (2 sep y)
  then show ?case by simp
next
  case (3 sep y z zs)
  show ?case
  proof (cases "x = y")
    case True
    then show ?thesis by simp
  next
    case False
    with 3 have "sublist x (join sep (z # zs))" by simp
    from sublist_wrap [OF this, of "y @ sep" "[]"] show ?thesis by simp
  qed
qed

lemma json_dumps_dict_entry:
  assumes "(k, v) \<in> set kvs"
  shows "sublist (json_string k @ '':'' @ json_dumps v) (json_dumps (PDict kvs))"
proof -
  let ?f = "\<lambda>(k, v). json_string k @ '':'' @ json_dumps v"
  from assms have "?f (k, v) \<in> set (map ?f kvs)" unfolding set_map by (rule imageI)
  then have "sublist (?f (k, v)) (join '','' (map ?f kvs))" by (rule sublist_join)
  from sublist_wrap [OF this, of "''{''" "''}''"] show ?thesis by simp
qed

lemma json_dumps_list_item:
  assumes "x \<in> set xs"
  shows "sublist (json_dumps x) (json_dumps (PList xs))"
proof -
  from assms have "json_dumps x \<in> set (map json_dumps xs)" by simp
  then have "sublist (json_dumps x) (join '','' (map json_dumps xs))" by (rule sublist_join)
  from sublist_wrap [OF this, of "''[''" "'']''"] show ?thesis by simp
qed

lemma dict_get_entry:
  assumes "dict_get d k = Some v"
  shows "sublist (json_string k @ '':'' @ json_dumps v) (json_dumps d)"
proof (cases d)
  case (PDict kvs)
  with assms have "(k, v) \<in> set kvs" by (simp add: map_of_SomeD)
  with PDict show ?thesis by (simp only: json_dumps_dict_entry)
qed (use assms in simp_all)

lemma sublist_trans: "sublist xs ys \<Longrightarrow> sublist ys zs \<Longrightarrow> sublist xs zs"
  by (rule sublist_order.order.trans)

lemma order_line_json_in_order:
  assumes "l \<in> set (order_lines_of (fst (generate_order order_num w)))"
  shows "sublist (json_dumps l) (json_dumps (fst (generate_order order_num w)))"
proof -
  have g: "dict_get (fst (generate_order order_num w)) ''order_lines'' =
     Some (PList (order_lines_of (fst (generate_order order_num w))))"
    using generate_order_lines [of order_num w] by metis
  from json_dumps_list_item [OF assms]
  have "sublist (json_dumps l) (json_string ''order_lines'' @ '':'' @
          json_dumps (PList (order_lines_of (fst (generate_order order_num w)))))"
    using sublist_wrap [of "json_dumps l" _ "json_string ''order_lines'' @ '':''" "[]"] by simp
  from this dict_get_entry [OF g] show ?thesis by (rule sublist_trans)
qed

lemma order_line_discount:
  "dict_get (fst (order_line i fn em c s sd dd w)) ''discount_amount'' =
     Some (if fst (random_random (snd (random_randint 1 3 (snd (random_choice PRODUCTS w))))) < 0.2
           then PFloat (py_round (fst (snd (snd (fst (random_choice PRODUCTS w)))) * 0.1) 2)
           else PNone)"
  by (simp add: order_line_eval length_PRODUCTS)

lemma order_line_discount_keys:
  "''discount_amount'' \<in> set (dict_keys (fst (order_line i fn em c s sd dd w)))"
  by (simp add: order_line_eval)

section \<open>Properties of \<open>generate_order\<close>\<close>

text \<open>
  Claim C2. For every \<open>order_num\<close> and every state of the process (hence of the random
  source), the record returned by \<open>generate_order\<close> holds under \<open>order_lines\<close> a
  list of at least one and at most three order lines.
\<close>

theorem order_lines_count:
  "dict_get (fst (generate_order order_num w)) ''order_lines'' =
     Some (PList (order_lines_of (fst (generate_order order_num w)))) \<and>
   1 \<le> length (order_lines_of (fst (generate_order order_num w))) \<and>
   length (order_lines_of (fst (generate_order order_num w))) \<le> 3"
proof -
  obtain k fn em c s sd dd w1 a1 pc ph where k: "k < 3"
    and g: "dict_get (fst (generate_order order_num w)) ''order_lines'' =
       Some (PList (fst (order_lines_loop 1 (1 + int k) fn em c s sd dd [] w1)))"
    and l: "order_lines_of (fst (generate_order order_num w)) =
       fst (order_lines_loop 1 (1 + int k) fn em c s sd dd [] w1)"
    by (rule generate_order_lines)
  have "length (order_lines_of (fst (generate_order order_num w))) = Suc k"
    by (simp add: l order_lines_loop_length)
  with k g l show ?thesis by simp
qed

text \<open>
  Claim C3. The \<open>line_number\<close> entries of the order lines, read in list order, are
  exactly the integers 1, 2, ..., \<open>len(order_lines)\<close>.
\<close>

theorem line_numbers_sequential:
  "map (\<lambda>l. dict_get l ''line_number'') (order_lines_of (fst (generate_order order_num w))) =
     map (\<lambda>j. Some (PInt j)) [1..int (length (order_lines_of (fst (generate_order order_num w))))]"
proof -
  obtain k fn em c s sd dd w1 a1 pc ph where
    l: "order_lines_of (fst (generate_order order_num w)) =
       fst (order_lines_loop 1 (1 + int k) fn em c s sd dd [] w1)"
    by (rule generate_order_lines)
  have "int (length (order_lines_of (fst (generate_order order_num w)))) = 1 + int k"
    by (simp add: l order_lines_loop_length)
  then show ?thesis
    by (simp add: l order_lines_loop_line_numbers)
qed

lemma product_tuple_lines:
  "\<forall>l \<in> set (order_lines_of (fst (generate_order order_num w))).
     \<exists>item_id item_name unit_price item_description.
       (item_id, item_name, unit_price, item_description) \<in> set PRODUCTS \<and>
       dict_get l ''item_id'' = Some (PInt item_id) \<and>
       dict_get l ''item_name'' = Some (PStr item_name) \<and>
       dict_get l ''unit_price'' = Some (PFloat unit_price) \<and>
       dict_get l ''item_description'' = Some (PStr item_description)"
proof -
  obtain k fn em c s sd dd w1 a1 pc ph where
    l: "order_lines_of (fst (generate_order order_num w)) =
       fst (order_lines_loop 1 (1 + int k) fn em c s sd dd [] w1)"
    by (rule generate_order_lines)
  show ?thesis
    unfolding l
  proof (rule order_lines_loop_all)
    show "\<forall>l\<in>set []. \<exists>item_id item_name unit_price item_description.
       (item_id, item_name, unit_price, item_description) \<in> set PRODUCTS \<and>
       dict_get l ''item_id'' = Some (PInt item_id) \<and>
       dict_get l ''item_name'' = Some (PStr item_name) \<and>
       dict_get l ''unit_price'' = Some (PFloat unit_price) \<and>
       dict_get l ''item_description'' = Some (PStr item_description)"
      by simp
  next
    fix j w'
    from order_line_shape [of j fn em c s sd dd w']
    show "\<exists>item_id item_name unit_price item_description.
       (item_id, item_name, unit_price, item_description) \<in> set PRODUCTS \<and>
       dict_get (fst (order_line j fn em c s sd dd w')) ''item_id'' = Some (PInt item_id) \<and>
       dict_get (fst (order_line j fn em c s sd dd w')) ''item_name'' = Some (PStr item_name) \<and>
       dict_get (fst (order_line j fn em c s sd dd w')) ''unit_price'' = Some (PFloat unit_price) \<and>
       dict_get (fst (order_line j fn em c s sd dd w')) ''item_description'' =
         Some (PStr item_description)"
      by (elim exE conjE) simp
  qed
qed

text \<open>
  Claim C6. In every order line the entries \<open>item_id\<close>, \<open>item_name\<close>,
  \<open>unit_price\<close> and \<open>item_description\<close> are the four components of one and the
  same row of the product table, which has 15 rows.
\<close>

theorem product_tuple_from_table:
  "length PRODUCTS = 15 \<and>
   (\<forall>l \<in> set (order_lines_of (fst (generate_order order_num w))).
      \<exists>item_id item_name unit_price item_description.
        (item_id, item_name, unit_price, item_description) \<in> set PRODUCTS \<and>
        dict_get l ''item_id'' = Some (PInt item_id) \<and>
        dict_get l ''item_name'' = Some (PStr item_name) \<and>
        dict_get l ''unit_price'' = Some (PFloat unit_price) \<and>
        dict_get l ''item_description'' = Some (PStr item_description))"
  using length_PRODUCTS product_tuple_lines [of order_num w] by (intro conjI)

text \<open>
  Claim C7. In every order line \<open>discount_amount\<close> is either absent, that is
  \<open>None\<close> (the specification calls \<open>address_line2\<close>, which is always \<open>None\<close>,
  absent in the same way), or \<open>round(unit_price * 0.1, 2)\<close> for the \<open>unit_price\<close> of
  that same line.
\<close>

theorem discount_amount_value:
  "\<forall>l \<in> set (order_lines_of (fst (generate_order order_num w))).
     \<exists>unit_price.
       dict_get l ''unit_price'' = Some (PFloat unit_price) \<and>
       (dict_get l ''discount_amount'' = Some PNone \<or>
        dict_get l ''discount_amount'' = Some (PFloat (py_round (unit_price * 0.1) 2)))"
proof -
  obtain k fn em c s sd dd w1 a1 pc ph where
    l: "order_lines_of (fst (generate_order order_num w)) =
       fst (order_lines_loop 1 (1 + int k) fn em c s sd dd [] w1)"
    by (rule generate_order_lines)
  show ?thesis
    unfolding l
  proof (rule order_lines_loop_all)
    show "\<forall>l\<in>set []. \<exists>unit_price.
       dict_get l ''unit_price'' = Some (PFloat unit_price) \<and>
       (dict_get l ''discount_amount'' = Some PNone \<or>
        dict_get l ''discount_amount'' = Some (PFloat (py_round (unit_price * 0.1) 2)))"
      by simp
  next
    fix j w'
    from order_line_shape [of j fn em c s sd dd w']
    show "\<exists>unit_price.
       dict_get (fst (order_line j fn em c s sd dd w')) ''unit_price'' = Some (PFloat unit_price) \<and>
       (dict_get (fst (order_line j fn em c s sd dd w')) ''discount_amount'' = Some PNone \<or>
        dict_get (fst (order_line j fn em c s sd dd w')) ''discount_amount'' =
          Some (PFloat (py_round (unit_price * 0.1) 2)))"
      by (elim exE conjE) auto
  qed
qed

theorem product_tuple_from_table_witness:
  "example_line1 \<in> set (order_lines_of (fst (generate_order 1 example_world))) \<and>
   (\<exists>item_id item_name unit_price item_description.
       (item_id, item_name, unit_price, item_description) \<in> set PRODUCTS \<and>
       dict_get example_line1 ''item_id'' = Some (PInt item_id) \<and>
       dict_get example_line1 ''item_name'' = Some (PStr item_name) \<and>
       dict_get example_line1 ''unit_price'' = Some (PFloat unit_price) \<and>
       dict_get example_line1 ''item_description'' = Some (PStr item_description)) \<and>
   dict_get example_line1 ''item_id'' = Some (PInt 1000000010) \<and>
   dict_get example_line1 ''unit_price'' = Some (PFloat 1299.99)"
proof -
  have mem: "example_line1 \<in> set (order_lines_of (fst (generate_order 1 example_world)))"
    by (simp add: example_lines)
  have "dict_get example_line1 ''item_id'' = Some (PInt 1000000010) \<and>
   dict_get example_line1 ''unit_price'' = Some (PFloat 1299.99)"
    by (simp add: example_line1_def)
  with product_tuple_from_table [of 1 example_world, THEN conjunct2, rule_format, OF mem] mem
  show ?thesis by blast
qed

theorem discount_amount_value_witness:
  "example_line1 \<in> set (order_lines_of (fst (generate_order 1 example_world))) \<and>
   example_line2 \<in> set (order_lines_of (fst (generate_order 1 example_world))) \<and>
   (\<exists>unit_price.
       dict_get example_line1 ''unit_price'' = Some (PFloat unit_price) \<and>
       (dict_get example_line1 ''discount_amount'' = Some PNone \<or>
        dict_get example_line1 ''discount_amount'' = Some (PFloat (py_round (unit_price * 0.1) 2)))) \<and>
   dict_get example_line1 ''unit_price'' = Some (PFloat 1299.99) \<and>
   py_round (1299.99 * 0.1) 2 = 130 \<and>
   dict_get example_line1 ''discount_amount'' = Some (PFloat 130) \<and>
   dict_get example_line2 ''discount_amount'' = Some PNone"
proof -
  have mem: "example_line1 \<in> set (order_lines_of (fst (generate_order 1 example_world)))"
    "example_line2 \<in> set (order_lines_of (fst (generate_order 1 example_world)))"
    by (simp_all add: example_lines)
  have "dict_get example_line1 ''unit_price'' = Some (PFloat 1299.99) \<and>
   py_round (1299.99 * 0.1) 2 = 130 \<and>
   dict_get example_line1 ''discount_amount'' = Some (PFloat 130) \<and>
   dict_get example_line2 ''discount_amount'' = Some PNone"
    by (simp add: example_line1_def example_line2_def format_eval)
  with discount_amount_value [of 1 example_world, rule_format, OF mem(1)] mem
  show ?thesis by blast
qed

text \<open>
  Claim C4. Within one order the billing address and the shipping address of every order
  line carry the same \<open>full_name\<close>, the same \<open>email\<close>, the same \<open>city\<close> and the
  same \<open>state_province\<close>: the values are drawn once per order and reused.
\<close>

theorem addresses_share_identity:
  "\<forall>l \<in> set (order_lines_of (fst (generate_order order_num w))).
     \<forall>k \<in> {''full_name'', ''email'', ''city'', ''state_province''}.
       dict_path l [''shipping_address'', k] =
         dict_path (fst (generate_order order_num w)) [''billing_address'', k] \<and>
       (\<exists>v. dict_path (fst (generate_order order_num w)) [''billing_address'', k] =
              Some (PStr v))"
proof -
  obtain k fn em c s sd dd w1 a1 pc ph where
    l: "order_lines_of (fst (generate_order order_num w)) =
       fst (order_lines_loop 1 (1 + int k) fn em c s sd dd [] w1)"
    and b: "dict_get (fst (generate_order order_num w)) ''billing_address'' =
       Some (PDict [
            (''full_name'', PStr fn),
            (''address_line1'', PStr a1),
            (''address_line2'', PNone),
            (''city'', PStr c),
            (''state_province'', PStr s),
            (''postal_code'', PStr pc),
            (''country'', PStr ''USA''),
            (''phone_number'', PStr ph),
            (''email'', PStr em)])"
    by (rule generate_order_lines)
  let ?P = "\<lambda>l. \<forall>k \<in> {''full_name'', ''email'', ''city'', ''state_province''}.
       dict_path l [''shipping_address'', k] =
         dict_path (fst (generate_order order_num w)) [''billing_address'', k] \<and>
       (\<exists>v. dict_path (fst (generate_order order_num w)) [''billing_address'', k] =
              Some (PStr v))"
  have "\<forall>l \<in> set (fst (order_lines_loop 1 (1 + int k) fn em c s sd dd [] w1)). ?P l"
  proof (rule order_lines_loop_all)
    show "\<forall>l \<in> set []. ?P l" by simp
  next
    fix j w'
    from order_line_shipping [of j fn em c s sd dd w']
    show "?P (fst (order_line j fn em c s sd dd w'))"
      by (elim exE) (simp add: b)
  qed
  then show ?thesis by (simp only: l)
qed

theorem addresses_share_identity_witness:
  "example_line2 \<in> set (order_lines_of (fst (generate_order 1 example_world))) \<and>
   ''email'' \<in> {''full_name'', ''email'', ''city'', ''state_province''} \<and>
   dict_path example_line2 [''shipping_address'', ''email''] =
     dict_path (fst (generate_order 1 example_world)) [''billing_address'', ''email''] \<and>
   dict_path example_line2 [''shipping_address'', ''email''] =
     Some (PStr ''robert.jones@example.com'')"
proof -
  have mem: "example_line2 \<in> set (order_lines_of (fst (generate_order 1 example_world)))"
    by (simp add: example_lines)
  have key: "''email'' \<in> {''full_name'', ''email'', ''city'', ''state_province''}"
    by simp
  from addresses_share_identity [of 1 example_world, rule_format, OF mem key]
  have "dict_path example_line2 [''shipping_address'', ''email''] =
     dict_path (fst (generate_order 1 example_world)) [''billing_address'', ''email'']"
    by blast
  moreover have "dict_path example_line2 [''shipping_address'', ''email''] =
     Some (PStr ''robert.jones@example.com'')"
    by (simp add: example_line2_def)
  ultimately show ?thesis using mem key by blast
qed

text \<open>
  Claim C5 as stated (every field of every shipping address equals the corresponding field
  of the billing address) fails: \<open>address_line1\<close>, \<open>postal_code\<close> and
  \<open>phone_number\<close> are drawn afresh for each address. In the sample run all three differ
  between the first line's shipping address and the billing address.
\<close>

theorem shipping_equals_billing_counterexample:
  "dict_path (order_lines_of (fst (generate_order 1 example_world)) ! 0)
     [''shipping_address'', ''address_line1''] = Some (PStr ''216 Main Street'') \<and>
   dict_path (fst (generate_order 1 example_world))
     [''billing_address'', ''address_line1''] = Some (PStr ''476 Main Street'') \<and>
   dict_path (order_lines_of (fst (generate_order 1 example_world)) ! 0)
     [''shipping_address'', ''postal_code''] = Some (PStr ''75877'') \<and>
   dict_path (fst (generate_order 1 example_world))
     [''billing_address'', ''postal_code''] = Some (PStr ''35854'') \<and>
   dict_path (order_lines_of (fst (generate_order 1 example_world)) ! 0)
     [''shipping_address'', ''phone_number''] = Some (PStr ''+1-348-555-5263'') \<and>
   dict_path (fst (generate_order 1 example_world))
     [''billing_address'', ''phone_number''] = Some (PStr ''+1-669-555-1328'')"
  by (simp add: example_lines example_billing_address example_line1_def example_billing_def)

text \<open>
  Claim C5, amended. Every shipping address has the same keys as the billing address of
  its order and agrees with it on every field other than \<open>address_line1\<close>,
  \<open>postal_code\<close> and \<open>phone_number\<close>.
\<close>

theorem shipping_agrees_with_billing:
  "\<forall>l \<in> set (order_lines_of (fst (generate_order order_num w))).
     \<exists>ship bill.
       dict_get l ''shipping_address'' = Some ship \<and>
       dict_get (fst (generate_order order_num w)) ''billing_address'' = Some bill \<and>
       dict_keys ship = dict_keys bill \<and>
       (\<forall>k. k \<notin> {''address_line1'', ''postal_code'', ''phone_number''} \<longrightarrow>
            dict_get ship k = dict_get bill k)"
proof -
  obtain k fn em c s sd dd w1 a1 pc ph where
    l: "order_lines_of (fst (generate_order order_num w)) =
       fst (order_lines_loop 1 (1 + int k) fn em c s sd dd [] w1)"
    and b: "dict_get (fst (generate_order order_num w)) ''billing_address'' =
       Some (PDict [
            (''full_name'', PStr fn),
            (''address_line1'', PStr a1),
            (''address_line2'', PNone),
            (''city'', PStr c),
            (''state_province'', PStr s),
            (''postal_code'', PStr pc),
            (''country'', PStr ''USA''),
            (''phone_number'', PStr ph),
            (''email'', PStr em)])"
    by (rule generate_order_lines)
  let ?P = "\<lambda>l. \<exists>ship bill.
       dict_get l ''shipping_address'' = Some ship \<and>
       dict_get (fst (generate_order order_num w)) ''billing_address'' = Some bill \<and>
       dict_keys ship = dict_keys bill \<and>
       (\<forall>k. k \<notin> {''address_line1'', ''postal_code'', ''phone_number''} \<longrightarrow>
            dict_get ship k = dict_get bill k)"
  have "\<forall>l \<in> set (fst (order_lines_loop 1 (1 + int k) fn em c s sd dd [] w1)). ?P l"
  proof (rule order_lines_loop_all)
    show "\<forall>l \<in> set []. ?P l" by simp
  next
    fix j w'
    from order_line_shipping [of j fn em c s sd dd w']
    show "?P (fst (order_line j fn em c s sd dd w'))"
      by (elim exE) (simp add: b)
  qed
  then show ?thesis by (simp only: l)
qed

theorem shipping_agrees_with_billing_witness:
  "example_line1 \<in> set (order_lines_of (fst (generate_order 1 example_world))) \<and>
   ''city'' \<notin> {''address_line1'', ''postal_code'', ''phone_number''} \<and>
   dict_path example_line1 [''shipping_address'', ''city''] =
     dict_path (fst (generate_order 1 example_world)) [''billing_address'', ''city''] \<and>
   dict_path example_line1 [''shipping_address'', ''city''] = Some (PStr ''Los Angeles'')"
proof -
  have mem: "example_line1 \<in> set (order_lines_of (fst (generate_order 1 example_world)))"
    by (simp add: example_lines)
  have key: "''city'' \<notin> {''address_line1'', ''postal_code'', ''phone_number''}"
    by simp
  from shipping_agrees_with_billing [of 1 example_world, rule_format, OF mem]
  obtain ship bill where
    "dict_get example_line1 ''shipping_address'' = Some ship"
    "dict_get (fst (generate_order 1 example_world)) ''billing_address'' = Some bill"
    "\<forall>k. k \<notin> {''address_line1'', ''postal_code'', ''phone_number''} \<longrightarrow>
            dict_get ship k = dict_get bill k"
    by blast
  with key have "dict_path example_line1 [''shipping_address'', ''city''] =
     dict_path (fst (generate_order 1 example_world)) [''billing_address'', ''city'']"
    by simp
  moreover have "dict_path example_line1 [''shipping_address'', ''city''] = Some (PStr ''Los Angeles'')"
    by (simp add: example_line1_def)
  ultimately show ?thesis using mem key by blast
qed

subsection \<open>What a call reads: the generator, the clock, the entropy\<close>

lemma order_line_two_worlds:
  assumes "rng w1 = rng w2"
  shows "fst (order_line i fn em c s sd dd w1) = fst (order_line i fn em c s sd dd w2)"
    and "rng (snd (order_line i fn em c s sd dd w1)) = rng (snd (order_line i fn em c s sd dd w2))"
  using assms by (simp_all add: order_line_eval)

lemma order_line_frame:
  "clock (snd (order_line i fn em c s sd dd w)) = clock w"
  "urandom (snd (order_line i fn em c s sd dd w)) = urandom w"
  by (simp_all add: order_line_eval)

lemma order_lines_loop_two_worlds:
  "rng w1 = rng w2 \<Longrightarrow>
   fst (order_lines_loop i n fn em c s sd dd acc w1) =
     fst (order_lines_loop i n fn em c s sd dd acc w2) \<and>
   rng (snd (order_lines_loop i n fn em c s sd dd acc w1)) =
     rng (snd (order_lines_loop i n fn em c s sd dd acc w2))"
proof (induction i n fn em c s sd dd acc w1 arbitrary: w2 rule: order_lines_loop.induct)
  case (1 i n fn em c s sd dd acc w1)
  show ?case
  proof (cases "i \<le> n")
    case True
    obtain l1 w1' where o1: "order_line i fn em c s sd dd w1 = (l1, w1')"
      by (cases "order_line i fn em c s sd dd w1")
    obtain l2 w2' where o2: "order_line i fn em c s sd dd w2 = (l2, w2')"
      by (cases "order_line i fn em c s sd dd w2")
    from order_line_two_worlds [OF "1.prems", of i fn em c s sd dd] o1 o2
    have eq: "l1 = l2" "rng w1' = rng w2'" by simp_all
    from "1.IH" [OF True o1 [symmetric] eq(2)] True o1 o2 eq(1) show ?thesis
      by (simp add: order_lines_loop_step)
  next
    case False
    with "1.prems" show ?thesis by (simp add: order_lines_loop_done)
  qed
qed

lemma order_lines_loop_frame:
  "clock (snd (order_lines_loop i n fn em c s sd dd acc w)) = clock w \<and>
   urandom (snd (order_lines_loop i n fn em c s sd dd acc w)) = urandom w"
proof (induction i n fn em c s sd dd acc w rule: order_lines_loop.induct)
  case (1 i n fn em c s sd dd acc w)
  show ?case
  proof (cases "i \<le> n")
    case True
    obtain line w' where ol: "order_line i fn em c s sd dd w = (line, w')"
      by (cases "order_line i fn em c s sd dd w")
    with order_line_frame [of i fn em c s sd dd w]
    have "clock w' = clock w" "urandom w' = urandom w" by simp_all
    with 1 [OF True ol [symmetric]] True ol show ?thesis
      by (simp add: order_lines_loop_step)
  next
    case False
    then show ?thesis by (simp add: order_lines_loop_done)
  qed
qed

lemma uuid4_fst_cong: "urandom w1 = urandom w2 \<Longrightarrow> fst (uuid4 w1) = fst (uuid4 w2)"
  by (simp add: uuid4_def Let_def)

lemma generate_order_external_order_id:
  "dict_get (fst (generate_order n w)) ''external_order_id'' = Some (PStr (str_uuid (fst (uuid4 w))))"
proof -
  have "fst (uuid4 (snd (order_lines_loop i k fn em c s sd dd acc w'))) = fst (uuid4 w)"
    if "urandom w' = urandom w" for i k fn em c s sd dd acc w'
    using that order_lines_loop_frame [of i k fn em c s sd dd acc w']
    by (intro uuid4_fst_cong) simp
  then show ?thesis
    by (simp only: generate_order_eval Let_def split_def fst_conv) simp
qed

lemma generate_order_two_worlds:
  assumes "rng w1 = rng w2" and "clock w1 = clock w2"
  shows "dict_keys (fst (generate_order n1 w1)) = dict_keys (fst (generate_order n2 w2))"
    and "k \<noteq> ''notes'' \<Longrightarrow> k \<noteq> ''external_order_id'' \<Longrightarrow>
         dict_get (fst (generate_order n1 w1)) k = dict_get (fst (generate_order n2 w2)) k"
    and "rng (snd (generate_order n1 w1)) = rng (snd (generate_order n2 w2))"
    and "clock (snd (generate_order n1 w1)) = clock (snd (generate_order n2 w2))"
proof -
  let ?X1 = "w1\<lparr>clock := stl (clock w2), rng := stl (stl (stl (stl (rng w2))))\<rparr>"
  let ?X2 = "w2\<lparr>clock := stl (clock w2), rng := stl (stl (stl (stl (rng w2))))\<rparr>"
  have r: "rng ?X1 = rng ?X2" by simp
  have e1: "fst (order_lines_loop i k fn em c s sd dd acc ?X1) =
            fst (order_lines_loop i k fn em c s sd dd acc ?X2)" for i k fn em c s sd dd acc
    using order_lines_loop_two_worlds [OF r] by blast
  have e2: "rng (snd (order_lines_loop i k fn em c s sd dd acc ?X1)) =
            rng (snd (order_lines_loop i k fn em c s sd dd acc ?X2))" for i k fn em c s sd dd acc
    using order_lines_loop_two_worlds [OF r] by blast
  have f: "clock (snd (order_lines_loop i k fn em c s sd dd acc w)) = clock w"
    for i k fn em c s sd dd acc w
    using order_lines_loop_frame by blast
  show "dict_keys (fst (generate_order n1 w1)) = dict_keys (fst (generate_order n2 w2))"
    by (simp only: generate_order_eval Let_def split_def fst_conv) simp
  show "rng (snd (generate_order n1 w1)) = rng (snd (generate_order n2 w2))"
    by (simp only: generate_order_eval Let_def split_def snd_conv) (simp add: assms e2)
  show "clock (snd (generate_order n1 w1)) = clock (snd (generate_order n2 w2))"
    by (simp only: generate_order_eval Let_def split_def snd_conv) (simp add: assms f)
  show "dict_get (fst (generate_order n1 w1)) k = dict_get (fst (generate_order n2 w2)) k"
    if "k \<noteq> ''notes''" "k \<noteq> ''external_order_id''"
    using that
    by (simp only: generate_order_eval Let_def split_def fst_conv) (simp add: assms e1 e2)
qed

lemma zero_uuid:
  assumes "shd (urandom w) = 0"
  shows "str_uuid (fst (uuid4 w)) = ''00000000-0000-4000-8000-000000000000''"
  unfolding str_uuid_def hex32_def uuid4_def Let_def upt_32 fst_conv assms
  by (simp add: digit_chars_def)

lemma generate_order_urandom:
  "urandom (snd (generate_order n w)) = stl (urandom w)"
  using order_lines_loop_frame
  by (simp only: generate_order_eval Let_def split_def snd_conv) simp

text \<open>
  Claim C9 as stated (same random-source state and same clock instant give records equal in
  every field but \<open>notes\<close>) fails: \<open>external_order_id\<close> is \<open>str(uuid.uuid4())\<close>,
  which reads the operating system's entropy and not the generator of the \<open>random\<close>
  module. Two process states with the same generator and the same clock but different
  entropy give different identifiers.
\<close>

theorem shared_entropy_counterexample:
  "rng (example_world\<lparr>urandom := sconst 0\<rparr>) = rng example_world \<and>
   clock (example_world\<lparr>urandom := sconst 0\<rparr>) = clock example_world \<and>
   dict_get (fst (generate_order 1 example_world)) ''external_order_id'' =
     Some (PStr ''01234567-89ab-4def-8123-456789abcdef'') \<and>
   dict_get (fst (generate_order 2 (example_world\<lparr>urandom := sconst 0\<rparr>))) ''external_order_id'' =
     Some (PStr ''00000000-0000-4000-8000-000000000000'')"
proof -
  have "shd (urandom example_world) = 0x0123456789abcdef0123456789abcdef"
    by (simp add: example_world_def)
  then have a: "str_uuid (fst (uuid4 example_world)) = ''01234567-89ab-4def-8123-456789abcdef''"
    by (rule example_uuid)
  have "shd (urandom (example_world\<lparr>urandom := sconst 0\<rparr>)) = 0" by simp
  then have b: "str_uuid (fst (uuid4 (example_world\<lparr>urandom := sconst 0\<rparr>))) =
      ''00000000-0000-4000-8000-000000000000''"
    by (rule zero_uuid)
  show ?thesis
    by (simp only: generate_order_external_order_id a b) simp
qed

text \<open>
  Claim C9, amended. \<open>order_num\<close> reaches the \<open>notes\<close> text and nothing else, and no
  draw depends on it: two calls, with any two arguments, from process states that agree on
  the generator and on the clock return records with the same keys and the same value under
  every key but \<open>notes\<close> (which holds the argument) and \<open>external_order_id\<close> (which
  holds the UUID read from the entropy of the state), and leave the same generator and the
  same clock behind. When the states also agree on the entropy, the identifiers agree and
  the same entropy is left; from one and the same state the whole state left behind is the
  same.
\<close>

theorem order_num_no_effect_on_randomness:
  assumes "rng w1 = rng w2" and "clock w1 = clock w2"
  shows "dict_keys (fst (generate_order n1 w1)) = dict_keys (fst (generate_order n2 w2)) \<and>
    (\<forall>k. k \<notin> {''notes'', ''external_order_id''} \<longrightarrow>
         dict_get (fst (generate_order n1 w1)) k = dict_get (fst (generate_order n2 w2)) k) \<and>
    rng (snd (generate_order n1 w1)) = rng (snd (generate_order n2 w2)) \<and>
    clock (snd (generate_order n1 w1)) = clock (snd (generate_order n2 w2)) \<and>
    dict_get (fst (generate_order n1 w1)) ''notes'' =
      Some (PStr (''Order #'' @ str_int n1 @ '' - Generated for testing'')) \<and>
    dict_get (fst (generate_order n1 w1)) ''external_order_id'' =
      Some (PStr (str_uuid (fst (uuid4 w1)))) \<and>
    (urandom w1 = urandom w2 \<longrightarrow>
       dict_get (fst (generate_order n1 w1)) ''external_order_id'' =
         dict_get (fst (generate_order n2 w2)) ''external_order_id'' \<and>
       urandom (snd (generate_order n1 w1)) = urandom (snd (generate_order n2 w2))) \<and>
    snd (generate_order n1 w1) = snd (generate_order n2 w1)"
proof -
  from generate_order_notes_shape [of w1] obtain eid cid ot ch ls bill ts w' where
    g: "\<And>n. generate_order n w1 =
       (PDict [
          (''external_order_id'', eid),
          (''customer_id'', cid),
          (''order_type'', ot),
          (''channel'', ch),
          (''order_lines'', ls),
          (''billing_address'', bill),
          (''notes'', PStr (''Order #'' @ str_int n @ '' - Generated for testing'')),
          (''timestamp'', ts)],
        w')"
    by blast
  have nt: "dict_get (fst (generate_order n1 w1)) ''notes'' =
      Some (PStr (''Order #'' @ str_int n1 @ '' - Generated for testing''))"
    and same: "snd (generate_order n1 w1) = snd (generate_order n2 w1)"
    by (simp_all add: g)
  have other: "\<forall>k. k \<notin> {''notes'', ''external_order_id''} \<longrightarrow>
         dict_get (fst (generate_order n1 w1)) k = dict_get (fst (generate_order n2 w2)) k"
  proof (intro allI impI)
    fix k :: string
    assume "k \<notin> {''notes'', ''external_order_id''}"
    then have "k \<noteq> ''notes''" "k \<noteq> ''external_order_id''" by simp_all
    then show "dict_get (fst (generate_order n1 w1)) k = dict_get (fst (generate_order n2 w2)) k"
      by (rule generate_order_two_worlds(2) [OF assms])
  qed
  have ent: "urandom w1 = urandom w2 \<longrightarrow>
       dict_get (fst (generate_order n1 w1)) ''external_order_id'' =
         dict_get (fst (generate_order n2 w2)) ''external_order_id'' \<and>
       urandom (snd (generate_order n1 w1)) = urandom (snd (generate_order n2 w2))"
  proof
    assume "urandom w1 = urandom w2"
    then show "dict_get (fst (generate_order n1 w1)) ''external_order_id'' =
         dict_get (fst (generate_order n2 w2)) ''external_order_id'' \<and>
       urandom (snd (generate_order n1 w1)) = urandom (snd (generate_order n2 w2))"
      using uuid4_fst_cong [of w1 w2]
      by (simp only: generate_order_external_order_id generate_order_urandom)
  qed
  from generate_order_two_worlds(1,3,4) [OF assms, of n1 n2] other nt
    generate_order_external_order_id [of n1 w1] ent same
  show ?thesis by (intro conjI)
qed

theorem order_num_no_effect_on_randomness_witness:
  "rng example_world = rng (example_world\<lparr>urandom := sconst 0\<rparr>) \<and>
   clock example_world = clock (example_world\<lparr>urandom := sconst 0\<rparr>) \<and>
   ''timestamp'' \<notin> {''notes'', ''external_order_id''} \<and>
   dict_get (fst (generate_order 1 example_world)) ''timestamp'' =
     dict_get (fst (generate_order 2 (example_world\<lparr>urandom := sconst 0\<rparr>))) ''timestamp'' \<and>
   dict_get (fst (generate_order 1 example_world)) ''timestamp'' =
     Some (PStr ''2026-11-04T10:00:00'') \<and>
   snd (generate_order 1 example_world) = example_world_after \<and>
   snd (generate_order 2 example_world) = example_world_after"
proof -
  have r: "rng example_world = rng (example_world\<lparr>urandom := sconst 0\<rparr>)" by simp
  have c: "clock example_world = clock (example_world\<lparr>urandom := sconst 0\<rparr>)" by simp
  have key: "''timestamp'' \<notin> {''notes'', ''external_order_id''}" by simp
  have eq: "dict_get (fst (generate_order 1 example_world)) ''timestamp'' =
     dict_get (fst (generate_order 2 (example_world\<lparr>urandom := sconst 0\<rparr>))) ''timestamp''"
    using order_num_no_effect_on_randomness [OF r c, of 1 2, THEN conjunct2, THEN conjunct1,
        rule_format, OF key] .
  have val: "dict_get (fst (generate_order 1 example_world)) ''timestamp'' =
     Some (PStr ''2026-11-04T10:00:00'')"
    by (simp add: generate_order_example example_order_def)
  have after: "snd (generate_order 1 example_world) = example_world_after"
    "snd (generate_order 2 example_world) = example_world_after"
    by (simp_all add: generate_order_example)
  from r c key eq val after show ?thesis by (intro conjI)
qed

text \<open>
  Claim C10. Every order line has the key \<open>discount_amount\<close>; its value is \<open>None\<close>
  or a float, and the serialised line, itself part of the serialised order, contains the
  entry \<open>"discount_amount":\<close> followed by the serialised value (\<open>null\<close> for
  \<open>None\<close>). In the loop body the value is \<open>None\<close> exactly when the draw of
  \<open>random.random()\<close>, the third draw of the line, is not below \<open>0.2\<close>.
\<close>

theorem discount_amount_always_present:
  "(\<forall>l \<in> set (order_lines_of (fst (generate_order order_num w))).
      ''discount_amount'' \<in> set (dict_keys l) \<and>
      (\<exists>v. dict_get l ''discount_amount'' = Some v \<and>
           (v = PNone \<or> (\<exists>d. v = PFloat d)) \<and>
           sublist (json_string ''discount_amount'' @ '':'' @ json_dumps v) (json_dumps l)) \<and>
      sublist (json_dumps l) (json_dumps (fst (generate_order order_num w)))) \<and>
   dict_get (fst (order_line i full_name email city state ship_date delivery_date w'))
       ''discount_amount'' =
     Some (if fst (random_random (snd (random_randint 1 3 (snd (random_choice PRODUCTS w'))))) < 0.2
           then PFloat (py_round (fst (snd (snd (fst (random_choice PRODUCTS w')))) * 0.1) 2)
           else PNone)"
proof -
  obtain k fn em c s sd dd w1 a1 pc ph where
    l: "order_lines_of (fst (generate_order order_num w)) =
       fst (order_lines_loop 1 (1 + int k) fn em c s sd dd [] w1)"
    by (rule generate_order_lines)
  let ?P = "\<lambda>l. ''discount_amount'' \<in> set (dict_keys l) \<and>
      (\<exists>v. dict_get l ''discount_amount'' = Some v \<and>
           (v = PNone \<or> (\<exists>d. v = PFloat d)) \<and>
           sublist (json_string ''discount_amount'' @ '':'' @ json_dumps v) (json_dumps l))"
  have "\<forall>l \<in> set (fst (order_lines_loop 1 (1 + int k) fn em c s sd dd [] w1)). ?P l"
  proof (rule order_lines_loop_all)
    show "\<forall>l \<in> set []. ?P l" by simp
  next
    fix j w2
    let ?l = "fst (order_line j fn em c s sd dd w2)"
    obtain v where v: "dict_get ?l ''discount_amount'' = Some v"
      and v': "v = PNone \<or> (\<exists>d. v = PFloat d)"
      using order_line_discount [of j fn em c s sd dd w2] by (cases "fst (random_random (snd (random_randint 1 3 (snd (random_choice PRODUCTS w2))))) < 0.2") auto
    from dict_get_entry [OF v] v v' order_line_discount_keys [of j fn em c s sd dd w2]
    show "?P ?l" by blast
  qed
  then have "\<forall>l \<in> set (order_lines_of (fst (generate_order order_num w))). ?P l"
    by (simp only: l)
  with order_line_json_in_order [of _ order_num w]
    order_line_discount [of i full_name email city state ship_date delivery_date w']
  show ?thesis by blast
qed

theorem discount_amount_always_present_witness:
  \<open>example_line2 \<in> set (order_lines_of (fst (generate_order 1 example_world))) \<and>
   dict_get example_line2 ''discount_amount'' = Some PNone \<and>
   sublist ''"discount_amount":null'' (json_dumps example_line2) \<and>
   sublist (json_dumps example_line2) (json_dumps (fst (generate_order 1 example_world)))\<close>
proof -
  have mem: "example_line2 \<in> set (order_lines_of (fst (generate_order 1 example_world)))"
    by (simp add: example_lines)
  have none: "dict_get example_line2 ''discount_amount'' = Some PNone"
    by (simp add: example_line2_def)
  from discount_amount_always_present [of 1 example_world, THEN conjunct1, rule_format, OF mem]
  obtain v where "dict_get example_line2 ''discount_amount'' = Some v"
    and "sublist (json_string ''discount_amount'' @ '':'' @ json_dumps v) (json_dumps example_line2)"
    and "sublist (json_dumps example_line2) (json_dumps (fst (generate_order 1 example_world)))"
    by blast
  with none mem show ?thesis
    by (simp add: json_string_def json_escape_char_def)
qed

section \<open>The driver loop\<close>

subsection \<open>A serialised record has no line break\<close>

lemma digit_chars_nth: "k < 16 \<Longrightarrow> digit_chars ! k \<in> set digit_chars"
  by (rule nth_mem) (simp add: digit_chars_def)

lemma newline_not_digit: "CHR 0x0A \<notin> set digit_chars"
  by (simp add: digit_chars_def)

lemma set_digits10: "set (digits10 n) \<subseteq> set digit_chars"
proof (induction n rule: digits10.induct)
  case (1 n)
  show ?case
  proof (cases "n < 10")
    case True
    then show ?thesis
      using digit_chars_nth [of n] by (simp add: digits10_small)
  next
    case False
    with 1 digit_chars_nth [of "n mod 10"] show ?thesis
      by (simp add: digits10_big)
  qed
qed

lemma newline_not_in_digits10: "CHR 0x0A \<notin> set (digits10 n)"
  using set_digits10 [of n] newline_not_digit by blast

lemma newline_not_in_str_int: "CHR 0x0A \<notin> set (str_int n)"
  by (simp add: str_int_def newline_not_in_digits10)

lemma set_frac_digits: "0 \<le> r \<Longrightarrow> r < 1 \<Longrightarrow> set (frac_digits fuel r) \<subseteq> set digit_chars"
proof (induction fuel arbitrary: r)
  case 0
  then show ?case by simp
next
  case (Suc fuel)
  let ?d = "\<lfloor>r * 10\<rfloor>"
  from Suc.prems have "r * 10 < of_int 10" by simp
  then have "?d < 10" by (simp only: floor_less_iff)
  moreover from Suc.prems have "0 \<le> ?d" by simp
  ultimately have "nat ?d < 16" by linarith
  then have d: "digit_chars ! nat ?d \<in> set digit_chars" by (rule digit_chars_nth)
  have "0 \<le> r * 10 - of_int ?d" "r * 10 - of_int ?d < 1" by linarith+
  from Suc.IH [OF this] d show ?case
    by (simp add: Let_def)
qed

lemma newline_not_in_float_repr: "CHR 0x0A \<notin> set (float_repr x)"
proof -
  have "0 \<le> \<bar>x\<bar> - of_int \<lfloor>\<bar>x\<bar>\<rfloor>" "\<bar>x\<bar> - of_int \<lfloor>\<bar>x\<bar>\<rfloor> < 1" by linarith+
  from set_frac_digits [OF this, of 17] newline_not_digit
  have "CHR 0x0A \<notin> set (frac_digits 17 (\<bar>x\<bar> - of_int \<lfloor>\<bar>x\<bar>\<rfloor>))" by blast
  then show ?thesis
    by (simp add: float_repr_def Let_def newline_not_in_digits10)
qed

lemma digit_chars_mod:
  "CHR 0x0A \<noteq> digit_chars ! (n mod 16)" "CHR 0x0A \<noteq> digit_chars ! 0"
  using digit_chars_nth [of "n mod 16"] digit_chars_nth [of 0] newline_not_digit by auto

lemma newline_not_in_escape: "CHR 0x0A \<notin> set (json_escape_char c)"
proof (cases "c = CHR 0x0A")
  case True
  then show ?thesis by (simp add: json_escape_char_def)
next
  case False
  then show ?thesis
    by (simp add: json_escape_char_def Let_def hex4_def digit_chars_mod)
qed

lemma newline_not_in_json_string: "CHR 0x0A \<notin> set (json_string s)"
  by (simp add: json_string_def newline_not_in_escape)

lemma newline_not_in_join:
  "CHR 0x0A \<notin> set sep \<Longrightarrow> (\<forall>x \<in> set xs. CHR 0x0A \<notin> set x) \<Longrightarrow>
   CHR 0x0A \<notin> set (join sep xs)"
  by (induction sep xs rule: join.induct) auto

lemma newline_not_in_json_dumps: "CHR 0x0A \<notin> set (json_dumps v)"
proof (induction v rule: json_dumps.induct)
  case (5 xs)
  then have "\<forall>x \<in> set (map json_dumps xs). CHR 0x0A \<notin> set x" by simp
  then have "CHR 0x0A \<notin> set (join '','' (map json_dumps xs))"
    by (intro newline_not_in_join) simp_all
  then show ?case by simp
next
  case (6 kvs)
  have "\<forall>x \<in> set (map (\<lambda>(k, v). json_string k @ '':'' @ json_dumps v) kvs).
          CHR 0x0A \<notin> set x"
  proof
    fix x
    assume "x \<in> set (map (\<lambda>(k, v). json_string k @ '':'' @ json_dumps v) kvs)"
    then obtain k v where kv: "(k, v) \<in> set kvs" and x: "x = json_string k @ '':'' @ json_dumps v"
      by auto
    from 6 [OF kv refl] show "CHR 0x0A \<notin> set x"
      by (simp add: x newline_not_in_json_string)
  qed
  then have "CHR 0x0A \<notin>
      set (join '','' (map (\<lambda>(k, v). json_string k @ '':'' @ json_dumps v) kvs))"
    by (intro newline_not_in_join) simp_all
  then show ?case by simp
qed (simp_all add: newline_not_in_str_int newline_not_in_float_repr newline_not_in_json_string)

subsection \<open>What the loop writes\<close>

lemma order_lines_loop_streams:
  "stdout (snd (order_lines_loop i n fn em c s sd dd acc w)) = stdout w \<and>
   stderr (snd (order_lines_loop i n fn em c s sd dd acc w)) = stderr w"
proof (induction i n fn em c s sd dd acc w rule: order_lines_loop.induct)
  case (1 i n fn em c s sd dd acc w)
  show ?case
  proof (cases "i \<le> n")
    case True
    obtain line w' where ol: "order_line i fn em c s sd dd w = (line, w')"
      by (cases "order_line i fn em c s sd dd w")
    then have "stdout w' = stdout w" "stderr w' = stderr w"
      by (auto simp add: order_line_eval)
    with 1 [OF True ol [symmetric]] True ol show ?thesis
      by (simp add: order_lines_loop_step)
  next
    case False
    then show ?thesis by (simp add: order_lines_loop_done)
  qed
qed

lemma generate_order_streams:
  "stdout (snd (generate_order n w)) = stdout w \<and> stderr (snd (generate_order n w)) = stderr w"
  apply (simp only: generate_order_eval Let_def split_def snd_conv)
  apply (simp add: order_lines_loop_streams)
  done

lemma main_loop_step:
  "i \<le> count \<Longrightarrow>
   main_loop i count w =
     main_loop (i + 1) count
       (if i mod 100 = 0
        then print_stderr (progress_notice i count)
               (print_stdout (json_dumps (fst (generate_order i w))) (snd (generate_order i w)))
        else print_stdout (json_dumps (fst (generate_order i w))) (snd (generate_order i w)))"
  by (subst main_loop.simps) (simp add: split_def Let_def)

lemma main_loop_done: "\<not> i \<le> count \<Longrightarrow> main_loop i count w = w"
  by (subst main_loop.simps) simp

lemma main_loop_stdout:
  "\<exists>ws. length ws = nat (count + 1 - i) \<and>
     stdout (main_loop i count w) =
       stdout w @ concat (map (\<lambda>(j, wj). json_dumps (fst (generate_order j wj)) @ [CHR 0x0A])
                            (zip [i..count] ws))"
proof (induction "nat (count + 1 - i)" arbitrary: i w)
  case 0
  then have "\<not> i \<le> count" by simp
  then show ?case by (simp add: main_loop_done)
next
  case (Suc k)
  then have le: "i \<le> count" by simp
  let ?line = "json_dumps (fst (generate_order i w))"
  let ?w = "if i mod 100 = 0
        then print_stderr (progress_notice i count)
               (print_stdout ?line (snd (generate_order i w)))
        else print_stdout ?line (snd (generate_order i w))"
  from Suc.hyps(2) have "k = nat (count + 1 - (i + 1))" by simp
  from Suc.hyps(1) [OF this, of ?w] obtain ws where
    ws: "length ws = nat (count + 1 - (i + 1))"
      "stdout (main_loop (i + 1) count ?w) =
         stdout ?w @ concat (map (\<lambda>(j, wj). json_dumps (fst (generate_order j wj)) @ [CHR 0x0A])
                              (zip [i + 1..count] ws))"
    by blast
  have w: "stdout ?w = stdout w @ ?line @ [CHR 0x0A]"
    using generate_order_streams [of i w] by (simp add: print_stdout_def print_stderr_def)
  have "length (w # ws) = nat (count + 1 - i)"
    using ws(1) le by simp
  moreover have "stdout (main_loop i count w) =
       stdout w @ concat (map (\<lambda>(j, wj). json_dumps (fst (generate_order j wj)) @ [CHR 0x0A])
                            (zip [i..count] (w # ws)))"
    by (subst main_loop_step [OF le]) (simp add: ws(2) w upto_rec1 [OF le])
  ultimately show ?case by blast
qed

lemma count_newlines_lines:
  "count_list (concat (map (\<lambda>(j, wj). json_dumps (fst (generate_order j wj)) @ [CHR 0x0A]) ps))
     (CHR 0x0A) = length ps"
  by (induction ps) (simp_all add: newline_not_in_json_dumps count_list_0_iff split_def)

lemma main_loop_stderr:
  "stderr (main_loop i count w) =
     stderr w @ concat (map (\<lambda>j. progress_notice j count @ [CHR 0x0A])
                          (filter (\<lambda>j. j mod 100 = 0) [i..count]))"
proof (induction "nat (count + 1 - i)" arbitrary: i w)
  case 0
  then have "\<not> i \<le> count" by simp
  then show ?case by (simp add: main_loop_done)
next
  case (Suc k)
  then have le: "i \<le> count" by simp
  let ?line = "json_dumps (fst (generate_order i w))"
  let ?w = "if i mod 100 = 0
        then print_stderr (progress_notice i count)
               (print_stdout ?line (snd (generate_order i w)))
        else print_stdout ?line (snd (generate_order i w))"
  from Suc.hyps(2) have "k = nat (count + 1 - (i + 1))" by simp
  note ih = Suc.hyps(1) [OF this, of ?w]
  have w: "stderr ?w =
     stderr w @ (if i mod 100 = 0 then progress_notice i count @ [CHR 0x0A] else [])"
    using generate_order_streams [of i w] by (simp add: print_stdout_def print_stderr_def)
  show ?case
    by (subst main_loop_step [OF le]) (simp add: ih w upto_rec1 [OF le])
qed

lemma count_multiples_nat:
  "length (filter (\<lambda>j. j mod 100 = 0) [1..int n]) = n div 100"
proof (induction n)
  case 0
  then show ?case by simp
next
  case (Suc n)
  have "[1..int (Suc n)] = [1..int n] @ [int n + 1]"
    using upto_rec2 [of 1 "int (Suc n)"] by simp
  moreover have "Suc n div 100 = n div 100 + (if (int n + 1) mod 100 = 0 then 1 else 0)"
    by (simp add: div_Suc) presburger
  ultimately show ?case using Suc by simp
qed

lemma count_multiples:
  "0 \<le> count \<Longrightarrow> length (filter (\<lambda>j. j mod 100 = 0) [1..count]) = nat (count div 100)"
  using count_multiples_nat [of "nat count"] by (simp add: nat_div_distrib)

lemma newline_not_in_progress_notice: "CHR 0x0A \<notin> set (progress_notice i count)"
  by (simp add: progress_notice_def newline_not_in_str_int)

lemma count_newlines_notices:
  "count_list (concat (map (\<lambda>j. progress_notice j count @ [CHR 0x0A]) js)) (CHR 0x0A) = length js"
  by (induction js) (simp_all add: newline_not_in_progress_notice count_list_0_iff)

lemma frac_digits_numeral:
  "frac_digits (numeral k) r =
     (if r = 0 then []
      else digit_chars ! nat \<lfloor>r * 10\<rfloor> #
           frac_digits (pred_numeral k) (r * 10 - of_int \<lfloor>r * 10\<rfloor>))"
  by (simp add: numeral_eq_Suc Let_def)

lemma float_repr_examples:
  "float_repr (129999 / 100) = ''1299.99''" "float_repr (34999 / 100) = ''349.99''"
  "float_repr (2 / 25) = ''0.08''" "float_repr 130 = ''130.0''"
  unfolding float_repr_def Let_def
  by (simp_all add: format_eval frac_digits_numeral)

lemma json_dumps_example: "json_dumps (example_order 1) = example_json"
  unfolding example_order_def example_line1_def example_line2_def example_billing_def
  apply (simp add: float_repr_examples format_eval)
  apply (simp add: json_string_def json_escape_char_def example_json_def)
  done


lemma multiples_upto_250: "filter (\<lambda>i. i mod 100 = 0) [1..250] = [100, 200]"
  by (simp add: upto_rec1)

text \<open>
  Claim C1. For \<open>count \<ge> 0\<close> the loop of \<open>main\<close> (the driver \<open>run(count)\<close>)
  appends to the standard output exactly \<open>count\<close> lines, the \<open>i\<close>-th being the
  serialised record of \<open>generate_order(i)\<close> in the state reached by then, and appends
  to the standard error stream one progress notice for every ordinal in \<open>1..count\<close>
  that is a multiple of 100, in order: \<open>count div 100\<close> lines in all.
\<close>

theorem driver_output:
  assumes "0 \<le> count"
  shows "\<exists>ws out err.
           length ws = nat count \<and>
           out = concat (map (\<lambda>(i, wi). json_dumps (fst (generate_order i wi)) @ [CHR 0x0A])
                          (zip [1..count] ws)) \<and>
           stdout (main_loop 1 count w) = stdout w @ out \<and>
           count_list out (CHR 0x0A) = nat count \<and>
           err = concat (map (\<lambda>i. progress_notice i count @ [CHR 0x0A])
                          (filter (\<lambda>i. i mod 100 = 0) [1..count])) \<and>
           stderr (main_loop 1 count w) = stderr w @ err \<and>
           count_list err (CHR 0x0A) = nat (count div 100)"
proof -
  from main_loop_stdout [of count 1 w] obtain ws where
    ws: "length ws = nat count"
      "stdout (main_loop 1 count w) =
         stdout w @ concat (map (\<lambda>(j, wj). json_dumps (fst (generate_order j wj)) @ [CHR 0x0A])
                              (zip [1..count] ws))"
    by auto
  have "length (zip [1..count] ws) = nat count"
    using ws(1) assms by simp
  then have "count_list
      (concat (map (\<lambda>(j, wj). json_dumps (fst (generate_order j wj)) @ [CHR 0x0A])
                 (zip [1..count] ws))) (CHR 0x0A) = nat count"
    by (simp only: count_newlines_lines)
  with ws main_loop_stderr [of 1 count w] count_multiples [OF assms]
    count_newlines_notices [of count "filter (\<lambda>i. i mod 100 = 0) [1..count]"]
  show ?thesis by (intro exI conjI) (rule refl | simp)+
qed

theorem driver_output_witness:
  "(0::int) \<le> 250 \<and>
   (\<forall>w. \<exists>out. stdout (main_loop 1 250 w) = stdout w @ out \<and>
           count_list out (CHR 0x0A) = 250) \<and>
   (\<forall>w. stderr (main_loop 1 250 w) =
          stderr w @ ''  Generated 100/250 orders...'' @ [CHR 0x0A] @
                     ''  Generated 200/250 orders...'' @ [CHR 0x0A]) \<and>
   (\<forall>w. stdout (main_loop 1 0 w) = stdout w \<and> stderr (main_loop 1 0 w) = stderr w)"
proof -
  have h: "(0::int) \<le> 250" by simp
  have h0: "(0::int) \<le> 0" by simp
  have notices: "progress_notice 100 250 = ''  Generated 100/250 orders...''"
    "progress_notice 200 250 = ''  Generated 200/250 orders...''"
    by (simp_all add: progress_notice_def format_eval)
  have a: "\<exists>out. stdout (main_loop 1 250 w) = stdout w @ out \<and>
           count_list out (CHR 0x0A) = 250" for w
    using driver_output [OF h, of w] by auto
  have b: "stderr (main_loop 1 250 w) =
          stderr w @ ''  Generated 100/250 orders...'' @ [CHR 0x0A] @
                     ''  Generated 200/250 orders...'' @ [CHR 0x0A]" for w
    using driver_output [OF h, of w] by (auto simp add: multiples_upto_250 notices)
  have c: "stdout (main_loop 1 0 w) = stdout w \<and> stderr (main_loop 1 0 w) = stderr w" for w
    using driver_output [OF h0, of w] by auto
  from h a b c show ?thesis by blast
qed

lemma sample_driver_run:
  "main_loop 1 1 example_world = example_world_after\<lparr>stdout := example_json @ [CHR 0x0A]\<rparr>"
  by (simp add: main_loop_step main_loop_done generate_order_example json_dumps_example
      print_stdout_def example_world_after_def)

section \<open>The count argument\<close>

lemma digits_value_rejects:
  "c \<in> set s \<Longrightarrow> \<not> is_digit c \<Longrightarrow> c \<noteq> CHR ''_'' \<Longrightarrow> digits_value acc s = None"
  by (induction s arbitrary: acc) auto

lemma dropWhile_keeps: "c \<in> set s \<Longrightarrow> \<not> P c \<Longrightarrow> c \<in> set (dropWhile P s)"
  by (induction s) auto

lemma strip_keeps: "c \<in> set s \<Longrightarrow> \<not> is_space c \<Longrightarrow> c \<in> set (strip s)"
  by (simp add: strip_def dropWhile_keeps)

lemma py_int_rejects:
  assumes "c \<in> set s" "\<not> is_digit c" "\<not> is_space c"
    "c \<noteq> CHR ''_''" "c \<noteq> CHR ''+''" "c \<noteq> CHR ''-''"
  shows "py_int s = Inl ValueError"
proof -
  from assms have c: "c \<in> set (strip s)" by (simp add: strip_keeps)
  then obtain x xs where s: "strip s = x # xs" by (cases "strip s") auto
  have "parse_unsigned body = None" if "c \<in> set body" for body
    using that assms(2,4) by (cases body) (auto simp: parse_unsigned_def digits_value_rejects)
  with c assms(5,6) show ?thesis
    by (auto simp: py_int_def s Let_def)
qed



lemma py_int_examples:
  "py_int ''250'' = Inr 250" "py_int '' -1_000 '' = Inr (- 1000)" "py_int ''+7'' = Inr 7"
  "py_int '''' = Inl ValueError" "py_int ''1__0'' = Inl ValueError"
  "py_int ''12x'' = Inl ValueError" "py_int ''ten'' = Inl ValueError"
  "py_int ''1.5'' = Inl ValueError" "py_int ''- 5'' = Inl ValueError"
  by (simp_all add: py_int_def strip_def is_space_def parse_unsigned_def is_digit_def)

end
